theory Spec2Isabelle
  imports Main "HOL-Library.Sublist"
begin

section \<open>JavaScript values\<close>

text \<open>
  The translator of \<^verbatim>\<open>src/src/natural-language.js\<close> receives two arguments of any
  JavaScript type. A string is a list of characters, one per UTF-16 code unit; the model
  covers the code units 0 to 255. A number argument is only ever inspected through
  truthiness, \<^verbatim>\<open>typeof\<close> and its rendering as a property key, so integer-valued numbers
  stand for the type. An object carries the outcome of converting it to a property key
  (its \<^verbatim>\<open>toString\<close> may throw).

  A thrown value is a built-in \<^verbatim>\<open>TypeError\<close>, a value of the caller's that the console
  can print, or a value of the caller's whose inspection throws in turn (a throwing
  custom inspector or getter): \<^verbatim>\<open>console.error\<close> formats its arguments, so logging such
  a value throws what the inspection throws.
\<close>

datatype js_error = TypeError | UserError | Uninspectable js_error

fun console_error :: "js_error \<Rightarrow> js_error + unit" where
  "console_error TypeError = Inr ()"
| "console_error UserError = Inr ()"
| "console_error (Uninspectable e) = Inl e"

datatype js_value =
    JUndefined
  | JNull
  | JBoolean bool
  | JNumber int
  | JString string
  | JObject "js_error + string"

fun truthy :: "js_value \<Rightarrow> bool" where
  "truthy JUndefined = False"
| "truthy JNull = False"
| "truthy (JBoolean b) = b"
| "truthy (JNumber n) = (n \<noteq> 0)"
| "truthy (JString s) = (s \<noteq> [])"
| "truthy (JObject k) = True"

definition js_not :: "js_value \<Rightarrow> bool" where
  "js_not v = (if truthy v then False else True)"

fun typeof :: "js_value \<Rightarrow> string" where
  "typeof JUndefined = ''undefined''"
| "typeof JNull = ''object''"
| "typeof (JBoolean b) = ''boolean''"
| "typeof (JNumber n) = ''number''"
| "typeof (JString s) = ''string''"
| "typeof (JObject k) = ''object''"

section \<open>Characters and strings\<close>

definition is_white_space :: "char \<Rightarrow> bool" where
  \<comment> \<open>\<^verbatim>\<open>\s\<close> and the characters \<^verbatim>\<open>trim\<close> strips: tab, LF, VT, FF, CR, space, NBSP.\<close>
  "is_white_space c =
     (c \<in> set [CHR 0x09, CHR 0x0A, CHR 0x0B, CHR 0x0C, CHR 0x0D, CHR 0x20, CHR 0xA0])"

definition in_range :: "char \<Rightarrow> char \<Rightarrow> char \<Rightarrow> bool" where
  "in_range lo hi c = ((of_char lo :: nat) \<le> of_char c \<and> (of_char c :: nat) \<le> of_char hi)"

definition is_digit :: "char \<Rightarrow> bool" where
  "is_digit c = in_range CHR ''0'' CHR ''9'' c"

definition is_word_char :: "char \<Rightarrow> bool" where
  \<comment> \<open>\<^verbatim>\<open>\w\<close>: ASCII letters, digits and the underscore.\<close>
  "is_word_char c =
     (in_range CHR ''a'' CHR ''z'' c \<or> in_range CHR ''A'' CHR ''Z'' c \<or> is_digit c
      \<or> c = CHR ''_'')"

definition ascii_lower :: string where
  "ascii_lower = ''abcdefghijklmnopqrstuvwxyz''"

definition ascii_upper :: string where
  "ascii_upper = ''ABCDEFGHIJKLMNOPQRSTUVWXYZ''"

definition latin1_upper :: string where
  "latin1_upper =
     [CHR 0xC0, CHR 0xC1, CHR 0xC2, CHR 0xC3, CHR 0xC4, CHR 0xC5, CHR 0xC6, CHR 0xC7,
      CHR 0xC8, CHR 0xC9, CHR 0xCA, CHR 0xCB, CHR 0xCC, CHR 0xCD, CHR 0xCE, CHR 0xCF,
      CHR 0xD0, CHR 0xD1, CHR 0xD2, CHR 0xD3, CHR 0xD4, CHR 0xD5, CHR 0xD6,
      CHR 0xD8, CHR 0xD9, CHR 0xDA, CHR 0xDB, CHR 0xDC, CHR 0xDD, CHR 0xDE]"

definition latin1_lower :: string where
  "latin1_lower =
     [CHR 0xE0, CHR 0xE1, CHR 0xE2, CHR 0xE3, CHR 0xE4, CHR 0xE5, CHR 0xE6, CHR 0xE7,
      CHR 0xE8, CHR 0xE9, CHR 0xEA, CHR 0xEB, CHR 0xEC, CHR 0xED, CHR 0xEE, CHR 0xEF,
      CHR 0xF0, CHR 0xF1, CHR 0xF2, CHR 0xF3, CHR 0xF4, CHR 0xF5, CHR 0xF6,
      CHR 0xF8, CHR 0xF9, CHR 0xFA, CHR 0xFB, CHR 0xFC, CHR 0xFD, CHR 0xFE]"

definition lower_char :: "char \<Rightarrow> char" where
  "lower_char c =
     (case map_of (zip (ascii_upper @ latin1_upper) (ascii_lower @ latin1_lower)) c of
        Some l \<Rightarrow> l
      | None \<Rightarrow> c)"

definition toLowerCase :: "string \<Rightarrow> string" where
  "toLowerCase s = map lower_char s"

definition canonicalize :: "char \<Rightarrow> char" where
  \<comment> \<open>Case folding of the \<^verbatim>\<open>i\<close> flag. Every character of the patterns is ASCII and no
      character above 127 folds to an ASCII one, so folding the ASCII letters is exact.\<close>
  "canonicalize c = (case map_of (zip ascii_lower ascii_upper) c of Some u \<Rightarrow> u | None \<Rightarrow> c)"

definition trim :: "string \<Rightarrow> string" where
  "trim s = rev (dropWhile is_white_space (rev (dropWhile is_white_space s)))"

fun join :: "string \<Rightarrow> string list \<Rightarrow> string" where
  "join sep [] = []"
| "join sep [x] = x"
| "join sep (x # y # ys) = x @ sep @ join sep (y # ys)"

fun replace_first :: "string \<Rightarrow> string \<Rightarrow> string \<Rightarrow> string" where
  \<comment> \<open>\<^verbatim>\<open>s.replace(pat, rep)\<close> with a string pattern: the first occurrence only.\<close>
  "replace_first pat rep [] = (if pat = [] then rep else [])"
| "replace_first pat rep (x # xs) =
     (if take (length pat) (x # xs) = pat then rep @ drop (length pat) (x # xs)
      else x # replace_first pat rep xs)"

definition digit_char :: "nat \<Rightarrow> char" where
  "digit_char d = ''0123456789'' ! (d mod 10)"

function show_nat :: "nat \<Rightarrow> string" where
  "show_nat n = (if n < 10 then [digit_char n] else show_nat (n div 10) @ [digit_char n])"
  by pat_completeness auto
termination
  by (relation "measure id") auto

definition digit_value :: "char \<Rightarrow> nat" where
  "digit_value c = of_char c - of_char CHR ''0''"

text \<open>
  Numbers are doubles. The builders only produce \<^verbatim>\<open>NaN\<close>, infinity and non-negative
  integers, so a finite number is the natural number it denotes: every natural number
  below \<open>2 ^ 53\<close>, and above it the multiples of a power of two with a 53-bit quotient.
\<close>

datatype js_number = NaN | Infinity | Finite nat

function bit_length :: "nat \<Rightarrow> nat" where
  "bit_length n = (if n = 0 then 0 else Suc (bit_length (n div 2)))"
  by pat_completeness auto
termination
  by (relation "measure id") auto

definition double_of_nat :: "nat \<Rightarrow> js_number" where
  \<comment> \<open>The double nearest to a natural number, ties to the even quotient.\<close>
  "double_of_nat n =
     (if n < 2 ^ 53 then Finite n
      else let e = bit_length n - 53;
               q = n div 2 ^ e;
               r = n mod 2 ^ e;
               h = 2 ^ (e - 1);
               m = (if h < r \<or> (r = h \<and> odd q) then q + 1 else q);
               v = m * 2 ^ e
           in if v < 2 ^ 1024 then Finite v else Infinity)"

definition parseInt :: "string \<Rightarrow> js_number" where
  \<comment> \<open>On the digit strings the patterns capture: the double nearest to the decimal value
      of the leading digits, \<^verbatim>\<open>NaN\<close> when there is none.\<close>
  "parseInt s =
     (let ds = takeWhile is_digit s
      in if ds = [] then NaN
         else double_of_nat (foldl (\<lambda>n d. 10 * n + digit_value d) 0 ds))"

definition js_times :: "js_number \<Rightarrow> nat \<Rightarrow> js_number" where
  \<comment> \<open>\<^verbatim>\<open>x * k\<close> for a positive integer constant \<open>k\<close>: the exact product, rounded.\<close>
  "js_times x k =
     (case x of NaN \<Rightarrow> NaN | Infinity \<Rightarrow> Infinity | Finite v \<Rightarrow> double_of_nat (v * k))"

definition digits_candidate :: "nat \<Rightarrow> nat \<Rightarrow> nat \<Rightarrow> nat option" where
  \<comment> \<open>The \<open>k\<close>-digit number \<open>s\<close> with \<open>s * 10 ^ (l - k)\<close> rounding to the double \<open>v\<close> of
      \<open>l\<close> digits, the one closest to \<open>v\<close> (the even one on a tie), if there is any.\<close>
  "digits_candidate v l k =
     (let g = 10 ^ (l - k);
          lo = v div g;
          d = v mod g;
          lo_ok = (double_of_nat (lo * g) = Finite v);
          hi_ok = (lo + 1 < 10 ^ k \<and> double_of_nat ((lo + 1) * g) = Finite v)
      in if lo_ok \<and> hi_ok
         then (if d + d < g then Some lo
               else if g < d + d then Some (lo + 1)
               else if even lo then Some lo else Some (lo + 1))
         else if lo_ok then Some lo
         else if hi_ok then Some (lo + 1)
         else None)"

fun shortest_digits :: "nat \<Rightarrow> nat \<Rightarrow> nat list \<Rightarrow> nat" where
  \<comment> \<open>The digits for the least number of digits that identifies the double.\<close>
  "shortest_digits v l [] = v"
| "shortest_digits v l (k # ks) =
     (case digits_candidate v l k of Some s \<Rightarrow> s | None \<Rightarrow> shortest_digits v l ks)"

definition render_digits :: "string \<Rightarrow> nat \<Rightarrow> string" where
  \<comment> \<open>Digits \<open>ds\<close> and decimal exponent \<open>n\<close>: plain up to 21 digits, exponent notation
      beyond.\<close>
  "render_digits ds n =
     (if n \<le> 21 then ds @ replicate (n - length ds) CHR ''0''
      else (case ds of [] \<Rightarrow> [] | [d] \<Rightarrow> [d] | d # rest \<Rightarrow> d # ''.'' @ rest)
           @ ''e+'' @ show_nat (n - 1))"

definition number_to_string :: "js_number \<Rightarrow> string" where
  \<comment> \<open>\<^verbatim>\<open>${x}\<close> for a number: the shortest digits that read back as the same double.\<close>
  "number_to_string x =
     (case x of
        NaN \<Rightarrow> ''NaN''
      | Infinity \<Rightarrow> ''Infinity''
      | Finite v \<Rightarrow>
          if v < 2 ^ 53 then show_nat v
          else let l = length (show_nat v)
               in if double_of_nat (10 ^ l) = Finite v then render_digits ''1'' (l + 1)
                  else render_digits (show_nat (shortest_digits v l [1 ..< l])) l)"

section \<open>Regular expressions\<close>

text \<open>
  The regular expressions of the file use literals, character classes, \<^verbatim>\<open>\b\<close>, \<^verbatim>\<open>$\<close>,
  alternation, capturing and non-capturing groups, optional groups, and quantifiers on
  single-character atoms, all under the \<^verbatim>\<open>i\<close> flag. The matcher lists every way an
  expression matches at a position, in the order in which a backtracking engine tries
  them; the engine's result is the first.
\<close>

datatype cclass = CDigit | CSpace | CRange char char | COne char

datatype atom = AChr char | AClass bool "cclass list"

datatype regex =
    Empty
  | Lit string
  | Atom atom
  | WordB
  | EndAnchor
  | Seq regex regex
  | Alt regex regex
  | Group nat regex
  | Opt regex
  | Rep atom nat "nat option" bool

fun in_cclass :: "cclass \<Rightarrow> char \<Rightarrow> bool" where
  "in_cclass CDigit c = is_digit c"
| "in_cclass CSpace c = is_white_space c"
| "in_cclass (CRange lo hi) c =
     (in_range lo hi c \<or> in_range lo hi (canonicalize c) \<or> in_range lo hi (lower_char c))"
| "in_cclass (COne a) c = (canonicalize a = canonicalize c)"

fun atom_ok :: "atom \<Rightarrow> char \<Rightarrow> bool" where
  "atom_ok (AChr a) c = (canonicalize a = canonicalize c)"
| "atom_ok (AClass negated items) c = (list_ex (\<lambda>i. in_cclass i c) items \<noteq> negated)"

type_synonym captures = "(nat \<times> string) list"

definition is_word_opt :: "char option \<Rightarrow> bool" where
  "is_word_opt p = (case p of None \<Rightarrow> False | Some c \<Rightarrow> is_word_char c)"

definition head_opt :: "string \<Rightarrow> char option" where
  "head_opt xs = (case xs of [] \<Rightarrow> None | x # _ \<Rightarrow> Some x)"

definition last_char :: "char option \<Rightarrow> string \<Rightarrow> char option" where
  "last_char p m = (if m = [] then p else Some (last m))"

definition rep_counts :: "atom \<Rightarrow> nat \<Rightarrow> nat option \<Rightarrow> bool \<Rightarrow> string \<Rightarrow> nat list" where
  "rep_counts a lo hi greedy xs =
     (let n = length (takeWhile (atom_ok a) xs);
          m = (case hi of None \<Rightarrow> n | Some h \<Rightarrow> min n h);
          ks = [lo ..< Suc m]
      in if greedy then rev ks else ks)"

fun matches :: "regex \<Rightarrow> char option \<Rightarrow> string \<Rightarrow> captures \<Rightarrow> (string \<times> captures) list" where
  "matches Empty p xs c = [([], c)]"
| "matches (Lit w) p xs c =
     (if length w \<le> length xs \<and> map canonicalize (take (length w) xs) = map canonicalize w
      then [(take (length w) xs, c)] else [])"
| "matches (Atom a) p xs c =
     (case xs of [] \<Rightarrow> [] | x # _ \<Rightarrow> if atom_ok a x then [([x], c)] else [])"
| "matches WordB p xs c =
     (if is_word_opt p \<noteq> is_word_opt (head_opt xs) then [([], c)] else [])"
| "matches EndAnchor p xs c = (if xs = [] then [([], c)] else [])"
| "matches (Seq r1 r2) p xs c =
     concat (map (\<lambda>(m1, c1).
                map (\<lambda>(m2, c2). (m1 @ m2, c2))
                  (matches r2 (last_char p m1) (drop (length m1) xs) c1))
             (matches r1 p xs c))"
| "matches (Alt r1 r2) p xs c = matches r1 p xs c @ matches r2 p xs c"
| "matches (Group n r) p xs c = map (\<lambda>(m, c'). (m, (n, m) # c')) (matches r p xs c)"
| "matches (Opt r) p xs c = filter (\<lambda>(m, c'). m \<noteq> []) (matches r p xs c) @ [([], c)]"
| "matches (Rep a lo hi greedy) p xs c =
     map (\<lambda>k. (take k xs, c)) (rep_counts a lo hi greedy xs)"

fun search :: "regex \<Rightarrow> char option \<Rightarrow> string \<Rightarrow> (string \<times> captures) option" where
  \<comment> \<open>The leftmost match: the matched text and the captures.\<close>
  "search r p [] = (case matches r p [] [] of [] \<Rightarrow> None | mc # _ \<Rightarrow> Some mc)"
| "search r p (x # xs) =
     (case matches r p (x # xs) [] of [] \<Rightarrow> search r (Some x) xs | mc # _ \<Rightarrow> Some mc)"

definition str_match :: "string \<Rightarrow> regex \<Rightarrow> (string \<times> captures) option" where
  "str_match s r = search r None s"

definition regex_test :: "regex \<Rightarrow> string \<Rightarrow> bool" where
  "regex_test r s = (case search r None s of None \<Rightarrow> False | Some mc \<Rightarrow> True)"

function replace_all :: "regex \<Rightarrow> string \<Rightarrow> char option \<Rightarrow> string \<Rightarrow> string" where
  \<comment> \<open>\<^verbatim>\<open>s.replace(/r/g, rep)\<close>: every match, left to right, none overlapping.\<close>
  "replace_all r rep p [] = (case matches r p [] [] of [] \<Rightarrow> [] | mc # _ \<Rightarrow> rep)"
| "replace_all r rep p (x # xs) =
     (case matches r p (x # xs) [] of
        [] \<Rightarrow> x # replace_all r rep (Some x) xs
      | mc # _ \<Rightarrow>
          (if fst mc = [] then rep @ x # replace_all r rep (Some x) xs
           else rep @ replace_all r rep (last_char p (fst mc)) (drop (length (fst mc)) (x # xs))))"
  by pat_completeness auto
termination
  by (relation "measure (\<lambda>(r, rep, p, xs). length xs)") auto

definition seqs :: "regex list \<Rightarrow> regex" where
  "seqs rs = foldr Seq rs Empty"

fun alts :: "regex list \<Rightarrow> regex" where
  "alts [] = Empty"
| "alts [r] = r"
| "alts (r # rs) = Alt r (alts rs)"

definition spaces1 :: regex where
  \<comment> \<open>\<^verbatim>\<open>\s+\<close>\<close>
  "spaces1 = Rep (AClass False [CSpace]) 1 None True"

definition spaces0 :: regex where
  \<comment> \<open>\<^verbatim>\<open>\s*\<close>\<close>
  "spaces0 = Rep (AClass False [CSpace]) 0 None True"

definition optional_chr :: "char \<Rightarrow> regex" where
  "optional_chr a = Rep (AChr a) 0 (Some 1) True"

section \<open>Mapping tables\<close>

definition STATE_MAPPINGS_incident :: "(string \<times> string) list" where
  "STATE_MAPPINGS_incident =
     [(''new'', ''state=1''),
      (''in progress'', ''state=2''),
      (''on hold'', ''state=3''),
      (''resolved'', ''state=6''),
      (''closed'', ''state=7''),
      (''canceled'', ''state=8''),
      (''open'', ''state=1^ORstate=2^ORstate=3''),
      (''active'', ''active=true'')]"

definition STATE_MAPPINGS :: "(string \<times> (string \<times> string) list) list" where
  "STATE_MAPPINGS =
     [(''incident'', STATE_MAPPINGS_incident),
      (''change_request'',
         [(''new'', ''state=-5''),
          (''assess'', ''state=-4''),
          (''authorize'', ''state=-3''),
          (''scheduled'', ''state=-2''),
          (''implement'', ''state=-1''),
          (''review'', ''state=0''),
          (''closed'', ''state=3''),
          (''canceled'', ''state=4''),
          (''open'', ''state<0''),
          (''active'', ''active=true'')]),
      (''problem'',
         [(''new'', ''state=1''),
          (''assessed'', ''state=2''),
          (''root cause analysis'', ''state=3''),
          (''fix in progress'', ''state=4''),
          (''resolved'', ''state=6''),
          (''closed'', ''state=7''),
          (''open'', ''state=1^ORstate=2^ORstate=3^ORstate=4''),
          (''active'', ''active=true'')]),
      (''sn_customerservice_case'',
         [(''new'', ''state=1''),
          (''open'', ''state=10''),
          (''awaiting info'', ''state=18''),
          (''resolved'', ''state=6''),
          (''closed'', ''state=3''),
          (''canceled'', ''state=7''),
          (''active'', ''active=true'')])]"

definition PRIORITY_MAPPINGS :: "(string \<times> string) list" where
  "PRIORITY_MAPPINGS =
     [(''critical'', ''1''), (''high'', ''2''), (''moderate'', ''3''), (''low'', ''4''),
      (''planning'', ''5''), (''p1'', ''1''), (''p2'', ''2''), (''p3'', ''3''),
      (''p4'', ''4''), (''p5'', ''5'')]"

definition IMPACT_MAPPINGS :: "(string \<times> string) list" where
  "IMPACT_MAPPINGS = [(''high'', ''1''), (''medium'', ''2''), (''low'', ''3'')]"

definition URGENCY_MAPPINGS :: "(string \<times> string) list" where
  "URGENCY_MAPPINGS = [(''high'', ''1''), (''medium'', ''2''), (''low'', ''3'')]"

text \<open>
  \<^verbatim>\<open>STATE_MAPPINGS\<close> is an object literal, so \<^verbatim>\<open>STATE_MAPPINGS[table]\<close> also finds the
  members every object inherits from \<^verbatim>\<open>Object.prototype\<close>. The table name comes from the
  caller, so the lookup distinguishes an own entry, an inherited member and no property.
\<close>

datatype 'a property = Own 'a | Inherited | Absent

definition object_prototype_keys :: "string list" where
  "object_prototype_keys =
     [''constructor'', ''__proto__'', ''hasOwnProperty'', ''isPrototypeOf'',
      ''propertyIsEnumerable'', ''toLocaleString'', ''toString'', ''valueOf'',
      ''__defineGetter__'', ''__defineSetter__'', ''__lookupGetter__'',
      ''__lookupSetter__'']"

definition get_property :: "(string \<times> 'a) list \<Rightarrow> string \<Rightarrow> 'a property" where
  "get_property obj k =
     (case map_of obj k of
        Some v \<Rightarrow> Own v
      | None \<Rightarrow> if k \<in> set object_prototype_keys then Inherited else Absent)"

definition show_int :: "int \<Rightarrow> string" where
  "show_int n = (if n < 0 then ''-'' @ show_nat (nat (- n)) else show_nat (nat n))"

fun to_property_key :: "js_value \<Rightarrow> js_error + string" where
  "to_property_key JUndefined = Inr ''undefined''"
| "to_property_key JNull = Inr ''null''"
| "to_property_key (JBoolean b) = Inr (if b then ''true'' else ''false'')"
| "to_property_key (JNumber n) = Inr (show_int n)"
| "to_property_key (JString s) = Inr s"
| "to_property_key (JObject k) = k"

section \<open>The pattern registry\<close>

type_synonym match_result = "string \<times> captures"

definition grp :: "match_result \<Rightarrow> nat \<Rightarrow> string option" where
  \<comment> \<open>\<^verbatim>\<open>match[k]\<close> for \<open>k > 0\<close>; \<open>None\<close> is \<^verbatim>\<open>undefined\<close>.\<close>
  "grp m k = map_of (snd m) k"

definition call_on :: "string option \<Rightarrow> (string \<Rightarrow> js_error + 'a) \<Rightarrow> js_error + 'a" where
  \<comment> \<open>A method call on a value that may be \<^verbatim>\<open>undefined\<close>.\<close>
  "call_on v f = (case v of None \<Rightarrow> Inl TypeError | Some s \<Rightarrow> f s)"

definition template :: "string option \<Rightarrow> string" where
  \<comment> \<open>\<^verbatim>\<open>${v}\<close> in a template literal.\<close>
  "template v = (case v of None \<Rightarrow> ''undefined'' | Some s \<Rightarrow> s)"

record Rule =
  regex :: regex
  priority :: int
  parser :: "match_result \<Rightarrow> js_value \<Rightarrow> js_error + string"

definition words :: "string list \<Rightarrow> regex" where
  "words ws = alts (map Lit ws)"

definition date_verbs :: regex where
  "date_verbs = words [''created'', ''opened'', ''updated'', ''modified'', ''closed'']"

definition date_field :: "string \<Rightarrow> string" where
  "date_field g =
     (if toLowerCase g = ''opened'' then ''sys_created_on'' else toLowerCase g @ ''_on'')"

definition letters_spaces :: atom where
  \<comment> \<open>\<^verbatim>\<open>[a-zA-Z\s]\<close>\<close>
  "letters_spaces = AClass False [CRange CHR ''a'' CHR ''z'', CRange CHR ''A'' CHR ''Z'', CSpace]"

definition quote_opt :: regex where
  \<comment> \<open>\<^verbatim>\<open>["']?\<close>\<close>
  "quote_opt = Rep (AClass False [COne (CHR 0x22), COne (CHR 0x27)]) 0 (Some 1) True"

definition name_tail :: regex where
  \<comment> \<open>\<^verbatim>\<open>(?:\s+(?:and|or|with)|\s*$)\<close>\<close>
  "name_tail = Alt (seqs [spaces1, words [''and'', ''or'', ''with'']]) (seqs [spaces0, EndAnchor])"

definition absolute_date :: regex where
  \<comment> \<open>\<^verbatim>\<open>[a-zA-Z]+\s+\d{1,2}(?:,?\s+\d{4})?\<close>\<close>
  "absolute_date =
     seqs [Rep (AClass False [CRange CHR ''a'' CHR ''z'', CRange CHR ''A'' CHR ''Z'']) 1 None True,
           spaces1,
           Rep (AClass False [CDigit]) 1 (Some 2) True,
           Opt (seqs [optional_chr CHR '','', spaces1, Rep (AClass False [CDigit]) 4 (Some 4) True])]"

text \<open>The twenty entries of \<^verbatim>\<open>PATTERNS\<close>, in registration order.\<close>

definition pat_priority_level :: Rule where
  \<comment> \<open>\<^verbatim>\<open>/\b(critical|high|moderate|low|planning)\s+priority\b/i\<close>\<close>
  "pat_priority_level =
     \<lparr>regex = seqs [WordB,
                     Group 1 (words [''critical'', ''high'', ''moderate'', ''low'', ''planning'']),
                     spaces1, Lit ''priority'', WordB],
      priority = 10,
      parser = (\<lambda>m table. call_on (grp m 1) (\<lambda>g.
                  let level = toLowerCase g
                  in Inr (''priority='' @ template (map_of PRIORITY_MAPPINGS level))))\<rparr>"

definition pat_priority_p :: Rule where
  \<comment> \<open>\<^verbatim>\<open>/\bp([1-5])\b/i\<close>\<close>
  "pat_priority_p =
     \<lparr>regex = seqs [WordB, Lit ''p'',
                     Group 1 (Atom (AClass False [CRange CHR ''1'' CHR ''5''])), WordB],
      priority = 10,
      parser = (\<lambda>m table. Inr (''priority='' @ template (grp m 1)))\<rparr>"

definition pat_priority_word :: Rule where
  \<comment> \<open>\<^verbatim>\<open>/\bpriority\s+(critical|high|moderate|low|planning|[1-5])\b/i\<close>\<close>
  "pat_priority_word =
     \<lparr>regex = seqs [WordB, Lit ''priority'', spaces1,
                     Group 1 (alts [Lit ''critical'', Lit ''high'', Lit ''moderate'', Lit ''low'',
                                    Lit ''planning'',
                                    Atom (AClass False [CRange CHR ''1'' CHR ''5''])]),
                     WordB],
      priority = 10,
      parser = (\<lambda>m table. call_on (grp m 1) (\<lambda>g.
                  let level = toLowerCase g
                  in Inr (''priority='' @
                          (case map_of PRIORITY_MAPPINGS level of Some v \<Rightarrow> v | None \<Rightarrow> g))))\<rparr>"

definition pat_impact :: Rule where
  \<comment> \<open>\<^verbatim>\<open>/\b(high|medium|low)\s+impact\b/i\<close>\<close>
  "pat_impact =
     \<lparr>regex = seqs [WordB, Group 1 (words [''high'', ''medium'', ''low'']), spaces1,
                     Lit ''impact'', WordB],
      priority = 9,
      parser = (\<lambda>m table. call_on (grp m 1) (\<lambda>g.
                  let level = toLowerCase g
                  in Inr (''impact='' @ template (map_of IMPACT_MAPPINGS level))))\<rparr>"

definition pat_urgency :: Rule where
  \<comment> \<open>\<^verbatim>\<open>/\b(high|medium|low)\s+urgency\b/i\<close>\<close>
  "pat_urgency =
     \<lparr>regex = seqs [WordB, Group 1 (words [''high'', ''medium'', ''low'']), spaces1,
                     Lit ''urgency'', WordB],
      priority = 9,
      parser = (\<lambda>m table. call_on (grp m 1) (\<lambda>g.
                  let level = toLowerCase g
                  in Inr (''urgency='' @ template (map_of URGENCY_MAPPINGS level))))\<rparr>"

definition pat_assigned_me :: Rule where
  \<comment> \<open>\<^verbatim>\<open>/\b(assigned\s+to\s+me|my\s+(incidents|problems|changes|tickets))\b/i\<close>\<close>
  "pat_assigned_me =
     \<lparr>regex = seqs [WordB,
                     Group 1 (Alt (seqs [Lit ''assigned'', spaces1, Lit ''to'', spaces1, Lit ''me''])
                                  (seqs [Lit ''my'', spaces1,
                                         Group 2 (words [''incidents'', ''problems'', ''changes'',
                                                         ''tickets''])])),
                     WordB],
      priority = 15,
      parser = (\<lambda>m table. Inr ''assigned_to=javascript:gs.getUserID()'')\<rparr>"

definition pat_unassigned :: Rule where
  \<comment> \<open>\<^verbatim>\<open>/\bunassigned\b/i\<close>\<close>
  "pat_unassigned =
     \<lparr>regex = seqs [WordB, Lit ''unassigned'', WordB],
      priority = 15,
      parser = (\<lambda>m table. Inr ''assigned_toISEMPTY'')\<rparr>"

definition pat_assigned_to :: Rule where
  \<comment> \<open>\<^verbatim>\<open>/\bassigned\s+to\s+([a-zA-Z\s]+?)(?:\s+(?:and|or|with|created|opened|updated)|\s*$)/i\<close>\<close>
  "pat_assigned_to =
     \<lparr>regex = seqs [WordB, Lit ''assigned'', spaces1, Lit ''to'', spaces1,
                     Group 1 (Rep letters_spaces 1 None False),
                     Alt (seqs [spaces1, words [''and'', ''or'', ''with'', ''created'', ''opened'',
                                                ''updated'']])
                         (seqs [spaces0, EndAnchor])],
      priority = 14,
      parser = (\<lambda>m table. call_on (grp m 1) (\<lambda>g.
                  let userName = trim g
                  in Inr (''assigned_to.nameLIKE'' @ userName)))\<rparr>"

definition pat_date_relative :: Rule where
  \<comment> \<open>\<^verbatim>\<open>/\b(created|opened|updated|modified|closed)\s+(today|yesterday)\b/i\<close>\<close>
  "pat_date_relative =
     \<lparr>regex = seqs [WordB, Group 1 date_verbs, spaces1,
                     Group 2 (words [''today'', ''yesterday'']), WordB],
      priority = 12,
      parser = (\<lambda>m table. call_on (grp m 1) (\<lambda>g1.
                  let field = date_field g1
                  in call_on (grp m 2) (\<lambda>g2.
                       let days = (if toLowerCase g2 = ''today'' then 0 else 1)
                       in Inr (field @ ''>javascript:gs.daysAgoStart('' @ show_nat days @ '')''))))\<rparr>"

definition pat_date_last :: Rule where
  \<comment> \<open>\<^verbatim>\<open>/\b(created|opened|updated|modified|closed)\s+(?:in\s+)?(?:the\s+)?last\s+(\d+)\s+(days?|weeks?|months?)\b/i\<close>\<close>
  "pat_date_last =
     \<lparr>regex = seqs [WordB, Group 1 date_verbs, spaces1,
                     Opt (seqs [Lit ''in'', spaces1]), Opt (seqs [Lit ''the'', spaces1]),
                     Lit ''last'', spaces1,
                     Group 2 (Rep (AClass False [CDigit]) 1 None True), spaces1,
                     Group 3 (alts [seqs [Lit ''day'', optional_chr CHR ''s''],
                                    seqs [Lit ''week'', optional_chr CHR ''s''],
                                    seqs [Lit ''month'', optional_chr CHR ''s'']]),
                     WordB],
      priority = 12,
      parser = (\<lambda>m table. call_on (grp m 1) (\<lambda>g1.
                  let field = date_field g1;
                      amount = (case grp m 2 of None \<Rightarrow> NaN | Some g2 \<Rightarrow> parseInt g2)
                  in call_on (grp m 3) (\<lambda>g3.
                       let unit = toLowerCase g3;
                           days = amount;
                           days = (if take 4 unit = ''week'' then js_times amount 7 else days);
                           days = (if take 5 unit = ''month'' then js_times amount 30 else days)
                       in Inr (field @ ''>javascript:gs.daysAgo('' @ number_to_string days
                               @ '')''))))\<rparr>"

definition pat_recent :: Rule where
  \<comment> \<open>\<^verbatim>\<open>/\b(recent|recently\s+created|new)\b/i\<close>\<close>
  "pat_recent =
     \<lparr>regex = seqs [WordB,
                     Group 1 (alts [Lit ''recent'',
                                    seqs [Lit ''recently'', spaces1, Lit ''created''],
                                    Lit ''new'']),
                     WordB],
      priority = 8,
      parser = (\<lambda>m table. Inr ''sys_created_on>javascript:gs.daysAgo(7)'')\<rparr>"

definition pat_date_before :: Rule where
  \<comment> \<open>\<^verbatim>\<open>/\b(created|opened|updated|modified|closed)\s+before\s+([a-zA-Z]+\s+\d{1,2}(?:,?\s+\d{4})?)\b/i\<close>\<close>
  "pat_date_before =
     \<lparr>regex = seqs [WordB, Group 1 date_verbs, spaces1, Lit ''before'', spaces1,
                     Group 2 absolute_date, WordB],
      priority = 11,
      parser = (\<lambda>m table. call_on (grp m 1) (\<lambda>g1.
                  let field = date_field g1
                  in Inr (field @ ''<'' @ template (grp m 2))))\<rparr>"

definition pat_date_after :: Rule where
  \<comment> \<open>\<^verbatim>\<open>/\b(created|opened|updated|modified|closed)\s+after\s+([a-zA-Z]+\s+\d{1,2}(?:,?\s+\d{4})?)\b/i\<close>\<close>
  "pat_date_after =
     \<lparr>regex = seqs [WordB, Group 1 date_verbs, spaces1, Lit ''after'', spaces1,
                     Group 2 absolute_date, WordB],
      priority = 11,
      parser = (\<lambda>m table. call_on (grp m 1) (\<lambda>g1.
                  let field = date_field g1
                  in Inr (field @ ''>'' @ template (grp m 2))))\<rparr>"

definition pat_state :: Rule where
  \<comment> \<open>\<^verbatim>\<open>/\b(new|open|active|in\s+progress|on\s+hold|resolved|closed|canceled)\b/i\<close>.
      A matched term is one of the alternatives in lower case, never the name of an
      inherited member, so \<^verbatim>\<open>mapping[state]\<close> is a plain lookup; an inherited member of
      \<^verbatim>\<open>STATE_MAPPINGS\<close> has no property of such a name.\<close>
  "pat_state =
     \<lparr>regex = seqs [WordB,
                     Group 1 (alts [Lit ''new'', Lit ''open'', Lit ''active'',
                                    seqs [Lit ''in'', spaces1, Lit ''progress''],
                                    seqs [Lit ''on'', spaces1, Lit ''hold''],
                                    Lit ''resolved'', Lit ''closed'', Lit ''canceled'']),
                     WordB],
      priority = 7,
      parser = (\<lambda>m table. call_on (grp m 1) (\<lambda>g.
                  let state = trim (toLowerCase g)
                  in case to_property_key table of
                       Inl e \<Rightarrow> Inl e
                     | Inr key \<Rightarrow>
                         let mapping = (case get_property STATE_MAPPINGS key of
                                          Own mp \<Rightarrow> mp
                                        | Inherited \<Rightarrow> []
                                        | Absent \<Rightarrow> STATE_MAPPINGS_incident)
                         in Inr (case map_of mapping state of
                                   Some fragment \<Rightarrow> fragment
                                 | None \<Rightarrow> ''state='' @ state)))\<rparr>"

definition pat_content :: Rule where
  \<comment> \<open>\<^verbatim>\<open>/\b(?:about|containing|with|includes?)\s+["']?([a-zA-Z0-9\s]+?)["']?(?:\s+(?:and|or|in|with|created|opened|assigned)|\s*$)/i\<close>\<close>
  "pat_content =
     \<lparr>regex = seqs [WordB,
                     alts [Lit ''about'', Lit ''containing'', Lit ''with'',
                           seqs [Lit ''include'', optional_chr CHR ''s'']],
                     spaces1, quote_opt,
                     Group 1 (Rep (AClass False [CRange CHR ''a'' CHR ''z'', CRange CHR ''A'' CHR ''Z'',
                                                 CRange CHR ''0'' CHR ''9'', CSpace]) 1 None False),
                     quote_opt,
                     Alt (seqs [spaces1, words [''and'', ''or'', ''in'', ''with'', ''created'',
                                                ''opened'', ''assigned'']])
                         (seqs [spaces0, EndAnchor])],
      priority = 5,
      parser = (\<lambda>m table. call_on (grp m 1) (\<lambda>g.
                  let searchTerm = trim g
                  in Inr (''short_descriptionLIKE'' @ searchTerm @ ''^ORdescriptionLIKE''
                          @ searchTerm)))\<rparr>"

definition pat_description :: Rule where
  \<comment> \<open>\<^verbatim>\<open>/\bdescription\s+(?:contains|includes)\s+["']?([^"']+?)["']?(?:\s+(?:and|or)|\s*$)/i\<close>\<close>
  "pat_description =
     \<lparr>regex = seqs [WordB, Lit ''description'', spaces1, words [''contains'', ''includes''],
                     spaces1, quote_opt,
                     Group 1 (Rep (AClass True [COne (CHR 0x22), COne (CHR 0x27)]) 1 None False),
                     quote_opt,
                     Alt (seqs [spaces1, words [''and'', ''or'']]) (seqs [spaces0, EndAnchor])],
      priority = 6,
      parser = (\<lambda>m table. call_on (grp m 1) (\<lambda>g.
                  let searchTerm = trim g
                  in Inr (''descriptionLIKE'' @ searchTerm)))\<rparr>"

definition pat_number :: Rule where
  \<comment> \<open>\<^verbatim>\<open>/\bnumber\s+(?:is|=|equals?)\s+([A-Z]{3}\d{7})\b/i\<close>\<close>
  "pat_number =
     \<lparr>regex = seqs [WordB, Lit ''number'', spaces1,
                     alts [Lit ''is'', Lit ''='', seqs [Lit ''equal'', optional_chr CHR ''s'']],
                     spaces1,
                     Group 1 (seqs [Rep (AClass False [CRange CHR ''A'' CHR ''Z'']) 3 (Some 3) True,
                                    Rep (AClass False [CDigit]) 7 (Some 7) True]),
                     WordB],
      priority = 20,
      parser = (\<lambda>m table. Inr (''number='' @ template (grp m 1)))\<rparr>"

definition pat_caller :: Rule where
  \<comment> \<open>\<^verbatim>\<open>/\bcaller\s+(?:is|=)\s+([a-zA-Z\s]+?)(?:\s+(?:and|or|with)|\s*$)/i\<close>\<close>
  "pat_caller =
     \<lparr>regex = seqs [WordB, Lit ''caller'', spaces1, words [''is'', ''=''], spaces1,
                     Group 1 (Rep letters_spaces 1 None False), name_tail],
      priority = 10,
      parser = (\<lambda>m table. call_on (grp m 1) (\<lambda>g.
                  let callerName = trim g
                  in Inr (''caller_id.nameLIKE'' @ callerName)))\<rparr>"

definition pat_category :: Rule where
  \<comment> \<open>\<^verbatim>\<open>/\bcategory\s+(?:is|=)\s+([a-zA-Z\s]+?)(?:\s+(?:and|or|with)|\s*$)/i\<close>\<close>
  "pat_category =
     \<lparr>regex = seqs [WordB, Lit ''category'', spaces1, words [''is'', ''=''], spaces1,
                     Group 1 (Rep letters_spaces 1 None False), name_tail],
      priority = 10,
      parser = (\<lambda>m table. call_on (grp m 1) (\<lambda>g.
                  let category = trim g
                  in Inr (''categoryLIKE'' @ category)))\<rparr>"

definition pat_assignment_group :: Rule where
  \<comment> \<open>\<^verbatim>\<open>/\bassignment\s+group\s+(?:is|=)\s+([a-zA-Z\s]+?)(?:\s+(?:and|or|with)|\s*$)/i\<close>\<close>
  "pat_assignment_group =
     \<lparr>regex = seqs [WordB, Lit ''assignment'', spaces1, Lit ''group'', spaces1,
                     words [''is'', ''=''], spaces1,
                     Group 1 (Rep letters_spaces 1 None False), name_tail],
      priority = 10,
      parser = (\<lambda>m table. call_on (grp m 1) (\<lambda>g.
                  let group = trim g
                  in Inr (''assignment_group.nameLIKE'' @ group)))\<rparr>"

definition PATTERNS :: "Rule list" where
  "PATTERNS =
     [pat_priority_level, pat_priority_p, pat_priority_word, pat_impact, pat_urgency,
      pat_assigned_me, pat_unassigned, pat_assigned_to, pat_date_relative, pat_date_last,
      pat_recent, pat_date_before, pat_date_after, pat_state, pat_content, pat_description,
      pat_number, pat_caller, pat_category, pat_assignment_group]"

section \<open>The translator\<close>

record MatchRecord =
  pattern :: regex
  matched :: string
  condition :: string

record TranslationResult =
  encodedQuery :: string
  matchedPatterns :: "MatchRecord list"
  unmatchedText :: js_value
  suggestions :: "string list"

text \<open>The three variables the match loop updates.\<close>

record LoopState =
  st_remainingQuery :: string
  st_conditions :: "string list"
  st_matchedPatterns :: "MatchRecord list"

definition sortedPatterns :: "Rule list" where
  \<comment> \<open>\<^verbatim>\<open>[...PATTERNS].sort((a, b) => b.priority - a.priority)\<close>: a stable sort.\<close>
  "sortedPatterns = sort_key (\<lambda>p. - priority p) PATTERNS"

definition apply_pattern :: "js_value \<Rightarrow> Rule \<Rightarrow> LoopState \<Rightarrow> js_error + LoopState" where
  \<comment> \<open>One iteration of the loop. The builder runs inside \<^verbatim>\<open>try\<close>: when it throws,
      nothing has been pushed yet and the \<^verbatim>\<open>catch\<close> block logs the thrown value with
      \<^verbatim>\<open>console.error\<close>; what the logging throws leaves the function.\<close>
  "apply_pattern table pat st =
     (case str_match (st_remainingQuery st) (regex pat) of
        None \<Rightarrow> Inr st
      | Some m \<Rightarrow>
          (case parser pat m table of
             Inl error \<Rightarrow>
               (case console_error error of
                  Inl e \<Rightarrow> Inl e
                | Inr u \<Rightarrow> Inr st)
           | Inr cond \<Rightarrow>
               Inr \<lparr>st_remainingQuery = trim (replace_first (fst m) '' '' (st_remainingQuery st)),
                    st_conditions = st_conditions st @ [cond],
                    st_matchedPatterns = st_matchedPatterns st
                      @ [\<lparr>pattern = regex pat, matched = fst m, condition = cond\<rparr>]\<rparr>))"

fun run_patterns :: "js_value \<Rightarrow> Rule list \<Rightarrow> LoopState \<Rightarrow> js_error + LoopState" where
  "run_patterns table [] st = Inr st"
| "run_patterns table (pat # pats) st =
     (case apply_pattern table pat st of
        Inl e \<Rightarrow> Inl e
      | Inr st' \<Rightarrow> run_patterns table pats st')"

definition match_loop :: "string \<Rightarrow> js_value \<Rightarrow> js_error + LoopState" where
  "match_loop query table =
     run_patterns table sortedPatterns
       \<lparr>st_remainingQuery = query, st_conditions = [], st_matchedPatterns = []\<rparr>"

definition re_and :: regex where
  \<comment> \<open>\<^verbatim>\<open>/\band\b/i\<close>\<close>
  "re_and = seqs [WordB, Lit ''and'', WordB]"

definition re_or :: regex where
  \<comment> \<open>\<^verbatim>\<open>/\bor\b/i\<close>\<close>
  "re_or = seqs [WordB, Lit ''or'', WordB]"

definition re_filler :: regex where
  \<comment> \<open>\<^verbatim>\<open>/\b(show|list|find|get|all|cases|incidents|problems|changes|tickets|and|or|with|in|the|a|an)\b/gi\<close>\<close>
  "re_filler =
     seqs [WordB,
           Group 1 (words [''show'', ''list'', ''find'', ''get'', ''all'', ''cases'', ''incidents'',
                           ''problems'', ''changes'', ''tickets'', ''and'', ''or'', ''with'', ''in'',
                           ''the'', ''a'', ''an'']),
           WordB]"

definition re_encoded :: regex where
  \<comment> \<open>\<^verbatim>\<open>/[=^]/\<close>\<close>
  "re_encoded = Atom (AClass False [COne CHR ''='', COne CHR ''^''])"

definition clean_up :: "string \<Rightarrow> string" where
  "clean_up s = trim (replace_all spaces1 '' '' None (replace_all re_filler '' '' None s))"

definition dq :: string where
  "dq = [CHR 0x22]"

definition invalid_result :: "js_value \<Rightarrow> TranslationResult" where
  "invalid_result query =
     \<lparr>encodedQuery = [], matchedPatterns = [], unmatchedText = query,
      suggestions = [''Please provide a valid query string'']\<rparr>"

definition passthrough_result :: "string \<Rightarrow> TranslationResult" where
  "passthrough_result originalQuery =
     \<lparr>encodedQuery = originalQuery, matchedPatterns = [], unmatchedText = JString [],
      suggestions = [''Using query as-is (appears to be encoded query format)'']\<rparr>"

definition no_match_result :: "string \<Rightarrow> TranslationResult" where
  "no_match_result originalQuery =
     \<lparr>encodedQuery = [], matchedPatterns = [], unmatchedText = JString originalQuery,
      suggestions =
        [''No patterns matched. Supported patterns:'',
         ''- Priority: '' @ dq @ ''high priority'' @ dq @ '', '' @ dq @ ''P1'' @ dq @ '', ''
            @ dq @ ''priority 2'' @ dq,
         ''- Assignment: '' @ dq @ ''assigned to me'' @ dq @ '', '' @ dq @ ''unassigned'' @ dq
            @ '', '' @ dq @ ''assigned to John'' @ dq,
         ''- State: '' @ dq @ ''new'' @ dq @ '', '' @ dq @ ''open'' @ dq @ '', '' @ dq @ ''closed''
            @ dq @ '', '' @ dq @ ''in progress'' @ dq,
         ''- Dates: '' @ dq @ ''created today'' @ dq @ '', '' @ dq @ ''last 7 days'' @ dq @ '', ''
            @ dq @ ''recent'' @ dq,
         ''- Content: '' @ dq @ ''about SAP'' @ dq @ '', '' @ dq @ ''containing error'' @ dq,
         ''Or use ServiceNow encoded query format: field=value^field2=value2'']\<rparr>"

definition unrecognized_suggestions :: "string \<Rightarrow> string list" where
  "unrecognized_suggestions remainingQuery =
     [''Unrecognized: '' @ dq @ remainingQuery @ dq,
      ''Try using encoded query format: field=value^field2=value2'',
      ''Supported patterns: priority (P1-P5), state (new/open/closed), assigned to me/unassigned, recent, dates'']"

definition assemble :: "string \<Rightarrow> LoopState \<Rightarrow> TranslationResult" where
  \<comment> \<open>What follows the match loop: connective, clean-up, suggestions, return.\<close>
  "assemble originalQuery st =
     (let hasAnd = regex_test re_and (st_remainingQuery st);
          hasOr = regex_test re_or (st_remainingQuery st);
          encoded = (if length (st_conditions st) > 0
                     then join (if hasOr then ''^OR'' else ''^'') (st_conditions st)
                     else []);
          remainingQuery = clean_up (st_remainingQuery st);
          hints = (if length remainingQuery > 3 then unrecognized_suggestions remainingQuery
                   else [])
      in if length (st_conditions st) = 0
         then (if regex_test re_encoded originalQuery then passthrough_result originalQuery
               else no_match_result originalQuery)
         else \<lparr>encodedQuery = encoded,
               matchedPatterns = st_matchedPatterns st,
               unmatchedText = JString remainingQuery,
               suggestions = (if length hints > 0 then hints
                              else [''Query parsed successfully''])\<rparr>)"

definition translate :: "string \<Rightarrow> js_value \<Rightarrow> js_error + TranslationResult" where
  \<comment> \<open>The body of \<^verbatim>\<open>parseNaturalLanguage\<close> after its guard.\<close>
  "translate originalQuery table =
     (case match_loop originalQuery table of
        Inl e \<Rightarrow> Inl e
      | Inr st \<Rightarrow> Inr (assemble originalQuery st))"

definition default_table :: "js_value \<Rightarrow> js_value" where
  \<comment> \<open>The default parameter \<^verbatim>\<open>table = 'incident'\<close>.\<close>
  "default_table table = (case table of JUndefined \<Rightarrow> JString ''incident'' | _ \<Rightarrow> table)"

definition string_of :: "js_value \<Rightarrow> string" where
  "string_of v = (case v of JString s \<Rightarrow> s | _ \<Rightarrow> [])"

definition parseNaturalLanguage :: "js_value \<Rightarrow> js_value \<Rightarrow> js_error + TranslationResult" where
  \<comment> \<open>\<open>Inl\<close> is an exception that leaves the function.\<close>
  "parseNaturalLanguage query table =
     (if js_not query \<or> typeof query \<noteq> ''string'' then Inr (invalid_result query)
      else translate (string_of query) (default_table table))"

section \<open>Measures on regular expressions\<close>

text \<open>The least number of characters a match of an expression consumes.\<close>

fun minlen :: "regex \<Rightarrow> nat" where
  "minlen Empty = 0"
| "minlen (Lit w) = length w"
| "minlen (Atom a) = 1"
| "minlen WordB = 0"
| "minlen EndAnchor = 0"
| "minlen (Seq r1 r2) = minlen r1 + minlen r2"
| "minlen (Alt r1 r2) = min (minlen r1) (minlen r2)"
| "minlen (Group n r) = minlen r"
| "minlen (Opt r) = 0"
| "minlen (Rep a lo hi greedy) = lo"

section \<open>Properties of the matcher\<close>

lemma rep_counts_bounds:
  "k \<in> set (rep_counts a lo hi greedy xs) \<Longrightarrow> lo \<le> k \<and> k \<le> length xs"
proof -
  assume k: "k \<in> set (rep_counts a lo hi greedy xs)"
  have n: "length (takeWhile (atom_ok a) xs) \<le> length xs"
    by (rule length_takeWhile_le)
  from k have "lo \<le> k \<and> k \<le> (case hi of None \<Rightarrow> length (takeWhile (atom_ok a) xs)
                                   | Some h \<Rightarrow> min (length (takeWhile (atom_ok a) xs)) h)"
    by (auto simp: rep_counts_def Let_def split: if_splits)
  with n show ?thesis
    by (cases hi) auto
qed

lemma matches_prefix_minlen:
  "(m, c') \<in> set (matches r p xs c) \<Longrightarrow> prefix m xs \<and> minlen r \<le> length m"
proof (induction r arbitrary: p xs c m c')
  case Empty
  then show ?case by simp
next
  case (Lit w)
  then show ?case by (auto simp: take_is_prefix split: if_splits)
next
  case (Atom a)
  then show ?case by (auto split: list.splits if_splits)
next
  case WordB
  then show ?case by (auto split: if_splits)
next
  case EndAnchor
  then show ?case by (auto split: if_splits)
next
  case (Seq r1 r2)
  from Seq.prems obtain m1 c1 m2 where
    m1: "(m1, c1) \<in> set (matches r1 p xs c)" and
    m2: "(m2, c') \<in> set (matches r2 (last_char p m1) (drop (length m1) xs) c1)" and
    m: "m = m1 @ m2"
    by auto
  from Seq.IH(1)[OF m1] have p1: "prefix m1 xs" and l1: "minlen r1 \<le> length m1" by auto
  from Seq.IH(2)[OF m2] have p2: "prefix m2 (drop (length m1) xs)"
    and l2: "minlen r2 \<le> length m2" by auto
  from p1 obtain ys where ys: "xs = m1 @ ys" by (auto simp: prefix_def)
  with p2 have "prefix m2 ys" by simp
  with ys m have "prefix m xs" by simp
  with l1 l2 m show ?case by simp
next
  case (Alt r1 r2)
  from Alt.prems have "(m, c') \<in> set (matches r1 p xs c) \<or> (m, c') \<in> set (matches r2 p xs c)"
    by auto
  then show ?case
  proof
    assume "(m, c') \<in> set (matches r1 p xs c)"
    from Alt.IH(1)[OF this] show ?thesis by auto
  next
    assume "(m, c') \<in> set (matches r2 p xs c)"
    from Alt.IH(2)[OF this] show ?thesis by auto
  qed
next
  case (Group n r)
  then show ?case by auto
next
  case (Opt r)
  then show ?case by auto
next
  case (Rep a lo hi greedy)
  then obtain k where k: "k \<in> set (rep_counts a lo hi greedy xs)" and m: "m = take k xs"
    by auto
  from rep_counts_bounds[OF k] m show ?case
    by (simp add: take_is_prefix)
qed

lemma search_occurs:
  "search r p xs = Some (m, c) \<Longrightarrow> (\<exists>us vs. xs = us @ m @ vs) \<and> minlen r \<le> length m"
proof (induction xs arbitrary: p)
  case Nil
  then have "(m, c) \<in> set (matches r p [] [])"
    by (auto split: list.splits)
  from matches_prefix_minlen[OF this] show ?case by auto
next
  case (Cons x xs)
  show ?case
  proof (cases "matches r p (x # xs) []")
    case Nil
    with Cons.prems have "search r (Some x) xs = Some (m, c)" by simp
    from Cons.IH[OF this] obtain us vs where "xs = us @ m @ vs" and l: "minlen r \<le> length m"
      by auto
    then have "x # xs = (x # us) @ m @ vs" by simp
    with l show ?thesis by blast
  next
    case (Cons mc rest)
    with Cons.prems have "(m, c) \<in> set (matches r p (x # xs) [])" by auto
    from matches_prefix_minlen[OF this] obtain vs where "x # xs = m @ vs" and l: "minlen r \<le> length m"
      by (auto simp: prefix_def)
    then have "x # xs = [] @ m @ vs" by simp
    with l show ?thesis by blast
  qed
qed

lemma replace_first_length:
  "xs = us @ m @ vs \<Longrightarrow> length (replace_first m rep xs) + length m = length xs + length rep"
proof (induction xs arbitrary: us)
  case Nil
  then show ?case by simp
next
  case (Cons x xs)
  show ?case
  proof (cases "take (length m) (x # xs) = m")
    case True
    then have "length (take (length m) (x # xs)) = length m" by simp
    then have "length m \<le> length (x # xs)" by (simp del: take_Suc_Cons)
    with True show ?thesis by simp
  next
    case False
    with Cons.prems have "us \<noteq> []" by auto
    with Cons.prems obtain us' where "us = x # us'" "xs = us' @ m @ vs"
      by (cases us) auto
    from Cons.IH[OF this(2)] False show ?thesis by simp
  qed
qed

lemma trim_length: "length (trim s) \<le> length s"
  unfolding trim_def
  by (metis length_dropWhile_le length_rev le_trans)

lemma patterns_minlen: "list_all (\<lambda>p. 2 \<le> minlen (regex p)) PATTERNS"
  by (simp add: PATTERNS_def pat_priority_level_def pat_priority_p_def pat_priority_word_def
      pat_impact_def pat_urgency_def pat_assigned_me_def pat_unassigned_def pat_assigned_to_def
      pat_date_relative_def pat_date_last_def pat_recent_def pat_date_before_def
      pat_date_after_def pat_state_def pat_content_def pat_description_def pat_number_def
      pat_caller_def pat_category_def pat_assignment_group_def seqs_def words_def
      spaces1_def spaces0_def optional_chr_def date_verbs_def quote_opt_def name_tail_def
      absolute_date_def letters_spaces_def)

lemma replace_first_first_occurrence:
  "xs = us' @ w @ vs'
   \<Longrightarrow> \<exists>us vs. xs = us @ w @ vs \<and> (\<forall>k<length us. take (length w) (drop k xs) \<noteq> w)
         \<and> replace_first w rep xs = us @ rep @ vs"
proof (induction xs arbitrary: us')
  case Nil
  then show ?case by simp
next
  case (Cons x xs)
  show ?case
  proof (cases "take (length w) (x # xs) = w")
    case True
    then have "x # xs = [] @ w @ drop (length w) (x # xs)"
      by (metis append_Nil append_take_drop_id)
    moreover from True have "replace_first w rep (x # xs) = [] @ rep @ drop (length w) (x # xs)"
      by simp
    ultimately show ?thesis
      by (metis length_0_conv not_less_zero list.size(3))
  next
    case False
    with Cons.prems have "us' \<noteq> []" by auto
    with Cons.prems obtain us'' where "xs = us'' @ w @ vs'"
      by (cases us') auto
    from Cons.IH[OF this] obtain us vs where
      split: "xs = us @ w @ vs" and first: "\<forall>k<length us. take (length w) (drop k xs) \<noteq> w" and
      res: "replace_first w rep xs = us @ rep @ vs"
      by blast
    have "\<forall>k<length (x # us). take (length w) (drop k (x # xs)) \<noteq> w"
    proof (intro allI impI)
      fix k assume k: "k < length (x # us)"
      show "take (length w) (drop k (x # xs)) \<noteq> w"
      proof (cases k)
        case 0
        with False show ?thesis by simp
      next
        case (Suc j)
        with k first show ?thesis by simp
      qed
    qed
    moreover from split have "x # xs = (x # us) @ w @ vs" by simp
    moreover from res False have "replace_first w rep (x # xs) = (x # us) @ rep @ vs" by simp
    ultimately show ?thesis by blast
  qed
qed

lemma search_leftmost:
  "search r p xs = Some mc
   \<Longrightarrow> \<exists>k\<le>length xs.
         (\<forall>j<k. matches r (if j = 0 then p else Some (xs ! (j - 1))) (drop j xs) [] = [])
         \<and> (\<exists>rest. matches r (if k = 0 then p else Some (xs ! (k - 1))) (drop k xs) []
                      = mc # rest)"
proof (induction xs arbitrary: p)
  case Nil
  then show ?case by (auto split: list.splits)
next
  case (Cons x xs)
  show ?case
  proof (cases "matches r p (x # xs) []")
    case Nil
    with Cons.prems have "search r (Some x) xs = Some mc" by simp
    from Cons.IH[OF this] obtain k rest where
      k: "k \<le> length xs" and
      none: "\<forall>j<k. matches r (if j = 0 then Some x else Some (xs ! (j - 1))) (drop j xs) [] = []" and
      hit: "matches r (if k = 0 then Some x else Some (xs ! (k - 1))) (drop k xs) [] = mc # rest"
      by blast
    have "\<forall>j<Suc k. matches r (if j = 0 then p else Some ((x # xs) ! (j - 1)))
                        (drop j (x # xs)) [] = []"
    proof (intro allI impI)
      fix j assume j: "j < Suc k"
      show "matches r (if j = 0 then p else Some ((x # xs) ! (j - 1))) (drop j (x # xs)) [] = []"
      proof (cases j)
        case 0
        with Nil show ?thesis by simp
      next
        case (Suc i)
        with j none have "matches r (if i = 0 then Some x else Some (xs ! (i - 1))) (drop i xs) [] = []"
          by simp
        with Suc show ?thesis by (cases i) simp_all
      qed
    qed
    moreover from hit have "matches r (if Suc k = 0 then p else Some ((x # xs) ! (Suc k - 1)))
                        (drop (Suc k) (x # xs)) [] = mc # rest"
      by (cases k) simp_all
    moreover from k have "Suc k \<le> length (x # xs)" by simp
    ultimately show ?thesis by blast
  next
    case (Cons mc' rest)
    with Cons.prems have "matches r p (x # xs) [] = mc # rest" by simp
    then have "(\<forall>j<0::nat. matches r (if j = 0 then p else Some ((x # xs) ! (j - 1)))
                  (drop j (x # xs)) [] = [])
        \<and> matches r (if (0::nat) = 0 then p else Some ((x # xs) ! (0 - 1))) (drop 0 (x # xs)) []
            = mc # rest"
      by simp
    then show ?thesis by blast
  qed
qed

lemma str_match_leftmost:
  "str_match xs r = Some mc
   \<Longrightarrow> \<exists>k\<le>length xs.
         (\<forall>j<k. matches r (if j = 0 then None else Some (xs ! (j - 1))) (drop j xs) [] = [])
         \<and> (\<exists>rest. matches r (if k = 0 then None else Some (xs ! (k - 1))) (drop k xs) []
                      = mc # rest)"
  using search_leftmost[of r None xs mc]
  by (simp add: str_match_def)

section \<open>The guard\<close>

lemma guard_iff:
  "(js_not query \<or> typeof query \<noteq> ''string'') = (query = JString [] \<or> (\<forall>s. query \<noteq> JString s))"
  by (cases query) (simp_all add: js_not_def)

text \<open>
  Claim C10. For every input that is the empty string or not a string at all (null,
  undefined, a number, an object), the early return of \<^verbatim>\<open>parseNaturalLanguage\<close> gives
  back the input value itself as \<^verbatim>\<open>unmatchedText\<close>, with an empty \<^verbatim>\<open>encodedQuery\<close>
  and no matched patterns.
\<close>

theorem C10_guard_keeps_input:
  assumes "query = JString [] \<or> (\<forall>s. query \<noteq> JString s)"
  shows "parseNaturalLanguage query table =
           Inr \<lparr>encodedQuery = [], matchedPatterns = [], unmatchedText = query,
                suggestions = [''Please provide a valid query string'']\<rparr>"
  using assms by (simp add: parseNaturalLanguage_def guard_iff invalid_result_def)

theorem C10_guard_keeps_input_witness:
  "parseNaturalLanguage JNull (JString ''incident'') =
     Inr \<lparr>encodedQuery = [], matchedPatterns = [], unmatchedText = JNull,
          suggestions = [''Please provide a valid query string'']\<rparr>
   \<and> parseNaturalLanguage (JNumber 42) (JString ''incident'') =
     Inr \<lparr>encodedQuery = [], matchedPatterns = [], unmatchedText = JNumber 42,
          suggestions = [''Please provide a valid query string'']\<rparr>"
  using C10_guard_keeps_input [of JNull "JString ''incident''"]
    C10_guard_keeps_input [of "JNumber 42" "JString ''incident''"]
  by simp

section \<open>One iteration of the match loop\<close>

lemma apply_pattern_no_match:
  "str_match (st_remainingQuery st) (regex pat) = None \<Longrightarrow> apply_pattern table pat st = Inr st"
  by (simp add: apply_pattern_def)

lemma apply_pattern_fires:
  "str_match (st_remainingQuery st) (regex pat) = Some m \<Longrightarrow> parser pat m table = Inr cond
   \<Longrightarrow> apply_pattern table pat st =
        Inr \<lparr>st_remainingQuery = trim (replace_first (fst m) '' '' (st_remainingQuery st)),
             st_conditions = st_conditions st @ [cond],
             st_matchedPatterns = st_matchedPatterns st
               @ [\<lparr>pattern = regex pat, matched = fst m, condition = cond\<rparr>]\<rparr>"
  by (simp add: apply_pattern_def)

lemma apply_pattern_skips:
  "str_match (st_remainingQuery st) (regex pat) = Some m \<Longrightarrow> parser pat m table = Inl e
   \<Longrightarrow> console_error e = Inr () \<Longrightarrow> apply_pattern table pat st = Inr st"
  by (simp add: apply_pattern_def)

lemma apply_pattern_cases:
  assumes "apply_pattern table pat st = Inr st'"
  shows "st' = st
    \<or> (\<exists>m cond. str_match (st_remainingQuery st) (regex pat) = Some m
          \<and> parser pat m table = Inr cond
          \<and> st_remainingQuery st' = trim (replace_first (fst m) '' '' (st_remainingQuery st))
          \<and> st_conditions st' = st_conditions st @ [cond]
          \<and> st_matchedPatterns st' = st_matchedPatterns st
               @ [\<lparr>pattern = regex pat, matched = fst m, condition = cond\<rparr>])"
  using assms by (auto simp: apply_pattern_def split: option.splits sum.splits)

section \<open>The residual text\<close>

lemma match_shortens:
  assumes "2 \<le> minlen (regex pat)"
    and "str_match xs (regex pat) = Some m"
  shows "2 \<le> length (fst m) \<and> length (trim (replace_first (fst m) '' '' xs)) < length xs"
proof -
  from assms(2) have "search (regex pat) None xs = Some (fst m, snd m)"
    by (simp add: str_match_def)
  from search_occurs[OF this] obtain us vs where
    occ: "xs = us @ fst m @ vs" and len: "minlen (regex pat) \<le> length (fst m)"
    by auto
  from replace_first_length[OF occ, of "'' ''"]
  have "length (replace_first (fst m) '' '' xs) + length (fst m) = length xs + 1"
    by simp
  with len assms(1) have "length (replace_first (fst m) '' '' xs) < length xs"
    by linarith
  with trim_length[of "replace_first (fst m) '' '' xs"] len assms(1)
  show ?thesis by linarith
qed

lemma apply_pattern_length:
  assumes "2 \<le> minlen (regex pat)" and "apply_pattern table pat st = Inr st'"
  shows "length (st_remainingQuery st') \<le> length (st_remainingQuery st)"
  using apply_pattern_cases[OF assms(2)] match_shortens[OF assms(1)]
  by (auto dest!: match_shortens[OF assms(1)])

lemma run_patterns_length:
  "list_all (\<lambda>p. 2 \<le> minlen (regex p)) pats \<Longrightarrow> run_patterns table pats st = Inr st'
   \<Longrightarrow> length (st_remainingQuery st') \<le> length (st_remainingQuery st)"
proof (induction pats arbitrary: st)
  case Nil
  then show ?case by simp
next
  case (Cons pat pats)
  from Cons.prems(1) have 1: "2 \<le> minlen (regex pat)"
    and 2: "list_all (\<lambda>p. 2 \<le> minlen (regex p)) pats"
    by auto
  from Cons.prems(2) obtain st1 where
    a: "apply_pattern table pat st = Inr st1" and r: "run_patterns table pats st1 = Inr st'"
    by (auto split: sum.splits)
  from Cons.IH[OF 2 r] apply_pattern_length[OF 1 a] show ?case by simp
qed

lemma set_sortedPatterns: "set sortedPatterns = set PATTERNS"
  by (simp add: sortedPatterns_def)

lemma sortedPatterns_minlen: "list_all (\<lambda>p. 2 \<le> minlen (regex p)) sortedPatterns"
  using patterns_minlen by (simp add: list_all_iff set_sortedPatterns)

text \<open>
  Claim C7. For every registered pattern and every state of the match loop, one iteration
  never lengthens the residual text; when the pattern matches and its builder succeeds,
  the matched text has at least two characters, the iteration completes and the residual
  becomes strictly shorter. Over the whole loop the residual is never longer than the
  query.
\<close>

theorem C7_residual_shrinks:
  assumes "pat \<in> set PATTERNS"
  shows "(\<forall>st'. apply_pattern table pat st = Inr st'
            \<longrightarrow> length (st_remainingQuery st') \<le> length (st_remainingQuery st))
    \<and> (\<forall>m cond. str_match (st_remainingQuery st) (regex pat) = Some m \<and> parser pat m table = Inr cond
          \<longrightarrow> 2 \<le> length (fst m)
              \<and> (\<exists>st'. apply_pattern table pat st = Inr st'
                    \<and> length (st_remainingQuery st') < length (st_remainingQuery st)))
    \<and> (\<forall>st'. match_loop query table = Inr st'
            \<longrightarrow> length (st_remainingQuery st') \<le> length query)"
proof -
  from assms patterns_minlen have 2: "2 \<le> minlen (regex pat)"
    by (simp add: list_all_iff)
  have a: "\<forall>st'. apply_pattern table pat st = Inr st'
            \<longrightarrow> length (st_remainingQuery st') \<le> length (st_remainingQuery st)"
    using apply_pattern_length[OF 2] by blast
  have b: "\<forall>m cond. str_match (st_remainingQuery st) (regex pat) = Some m \<and> parser pat m table = Inr cond
          \<longrightarrow> 2 \<le> length (fst m)
              \<and> (\<exists>st'. apply_pattern table pat st = Inr st'
                    \<and> length (st_remainingQuery st') < length (st_remainingQuery st))"
  proof (intro allI impI)
    fix m cond
    assume h: "str_match (st_remainingQuery st) (regex pat) = Some m \<and> parser pat m table = Inr cond"
    from match_shortens[OF 2, of "st_remainingQuery st" m] h
    have s: "2 \<le> length (fst m)
      \<and> length (trim (replace_first (fst m) '' '' (st_remainingQuery st))) < length (st_remainingQuery st)"
      by simp
    from h apply_pattern_fires[of st pat m table cond]
    have "apply_pattern table pat st =
        Inr \<lparr>st_remainingQuery = trim (replace_first (fst m) '' '' (st_remainingQuery st)),
             st_conditions = st_conditions st @ [cond],
             st_matchedPatterns = st_matchedPatterns st
               @ [\<lparr>pattern = regex pat, matched = fst m, condition = cond\<rparr>]\<rparr>"
      by simp
    with s show "2 \<le> length (fst m)
              \<and> (\<exists>st'. apply_pattern table pat st = Inr st'
                    \<and> length (st_remainingQuery st') < length (st_remainingQuery st))"
      by simp
  qed
  have c: "\<forall>st'. match_loop query table = Inr st'
            \<longrightarrow> length (st_remainingQuery st') \<le> length query"
    using run_patterns_length[OF sortedPatterns_minlen,
        of table "\<lparr>st_remainingQuery = query, st_conditions = [], st_matchedPatterns = []\<rparr>"]
    by (simp add: match_loop_def)
  from a b c show ?thesis by blast
qed

theorem C7_residual_shrinks_witness:
  "pat_priority_p \<in> set PATTERNS
   \<and> str_match ''P1 or P2 incidents'' (regex pat_priority_p) = Some (''P1'', [(1, ''1'')])
   \<and> parser pat_priority_p (''P1'', [(1, ''1'')]) (JString ''incident'') = Inr ''priority=1''
   \<and> (\<exists>st'. apply_pattern (JString ''incident'') pat_priority_p
          \<lparr>st_remainingQuery = ''P1 or P2 incidents'', st_conditions = [], st_matchedPatterns = []\<rparr>
         = Inr st'
        \<and> st_remainingQuery st' = ''or P2 incidents''
        \<and> length (st_remainingQuery st') < length ''P1 or P2 incidents'')"
proof -
  have mem: "pat_priority_p \<in> set PATTERNS"
    by (simp add: PATTERNS_def)
  have m: "str_match ''P1 or P2 incidents'' (regex pat_priority_p) = Some (''P1'', [(1, ''1'')])"
    by code_simp
  have b: "parser pat_priority_p (''P1'', [(1, ''1'')]) (JString ''incident'') = Inr ''priority=1''"
    by code_simp
  have r: "apply_pattern (JString ''incident'') pat_priority_p
        \<lparr>st_remainingQuery = ''P1 or P2 incidents'', st_conditions = [], st_matchedPatterns = []\<rparr>
       = Inr \<lparr>st_remainingQuery = ''or P2 incidents'', st_conditions = [''priority=1''],
              st_matchedPatterns = [\<lparr>pattern = regex pat_priority_p, matched = ''P1'',
                                     condition = ''priority=1''\<rparr>]\<rparr>"
    by code_simp
  from C7_residual_shrinks[OF mem, where table = "JString ''incident''" and query = "[]"
      and st = "\<lparr>st_remainingQuery = ''P1 or P2 incidents'', st_conditions = [],
                 st_matchedPatterns = []\<rparr>"]
  have "\<forall>m cond. str_match ''P1 or P2 incidents'' (regex pat_priority_p) = Some m
          \<and> parser pat_priority_p m (JString ''incident'') = Inr cond
        \<longrightarrow> 2 \<le> length (fst m)
            \<and> (\<exists>st'. apply_pattern (JString ''incident'') pat_priority_p
                  \<lparr>st_remainingQuery = ''P1 or P2 incidents'', st_conditions = [],
                     st_matchedPatterns = []\<rparr> = Inr st'
                \<and> length (st_remainingQuery st') < length ''P1 or P2 incidents'')"
    by simp
  with m b obtain st' where "apply_pattern (JString ''incident'') pat_priority_p
          \<lparr>st_remainingQuery = ''P1 or P2 incidents'', st_conditions = [], st_matchedPatterns = []\<rparr>
         = Inr st'"
    and "length (st_remainingQuery st') < length ''P1 or P2 incidents''"
    by blast
  with r have "\<exists>st'. apply_pattern (JString ''incident'') pat_priority_p
          \<lparr>st_remainingQuery = ''P1 or P2 incidents'', st_conditions = [], st_matchedPatterns = []\<rparr>
         = Inr st'
        \<and> st_remainingQuery st' = ''or P2 incidents''
        \<and> length (st_remainingQuery st') < length ''P1 or P2 incidents''"
    by auto
  with mem m b show ?thesis by blast
qed

section \<open>The whole call\<close>

lemma parse_string:
  "s \<noteq> [] \<Longrightarrow> parseNaturalLanguage (JString s) table = translate s (default_table table)"
  by (simp add: parseNaturalLanguage_def js_not_def string_of_def)

lemma parse_cases:
  assumes "parseNaturalLanguage query table = Inr r"
  shows "((query = JString [] \<or> (\<forall>s. query \<noteq> JString s)) \<and> r = invalid_result query)
    \<or> (\<exists>s st. query = JString s \<and> s \<noteq> [] \<and> match_loop s (default_table table) = Inr st
          \<and> r = assemble s st)"
proof (cases "query = JString [] \<or> (\<forall>s. query \<noteq> JString s)")
  case True
  with assms show ?thesis
    by (simp add: parseNaturalLanguage_def guard_iff)
next
  case False
  then obtain s where s: "query = JString s" "s \<noteq> []" by auto
  with assms have "translate s (default_table table) = Inr r"
    by (simp add: parse_string)
  then obtain st where "match_loop s (default_table table) = Inr st" "r = assemble s st"
    by (auto simp: translate_def split: sum.splits)
  with s show ?thesis by blast
qed

section \<open>Already encoded input\<close>

lemma canonicalize_eq_sign [simp]: "(CHR ''='' = canonicalize c) = (c = CHR ''='')"
  by (auto simp: canonicalize_def ascii_lower_def ascii_upper_def split: if_splits)

lemma canonicalize_caret [simp]: "(CHR ''^'' = canonicalize c) = (c = CHR ''^'')"
  by (auto simp: canonicalize_def ascii_lower_def ascii_upper_def split: if_splits)

lemma search_encoded:
  "(search re_encoded p s = None) = (CHR ''='' \<notin> set s \<and> CHR ''^'' \<notin> set s)"
  by (induction s arbitrary: p) (auto simp: re_encoded_def canonicalize_def ascii_lower_def ascii_upper_def)

lemma regex_test_encoded:
  "regex_test re_encoded s = (CHR ''='' \<in> set s \<or> CHR ''^'' \<in> set s)"
  using search_encoded[of None s] by (auto simp: regex_test_def split: option.splits)

lemma run_patterns_no_match:
  "list_all (\<lambda>p. str_match (st_remainingQuery st) (regex p) = None) pats
   \<Longrightarrow> run_patterns table pats st = Inr st"
  by (induction pats) (simp_all add: apply_pattern_no_match)

text \<open>
  Claim C3. For every input string that contains \<^verbatim>\<open>=\<close> or \<^verbatim>\<open>^\<close> and that no registered
  pattern matches, the call returns, and the returned \<^verbatim>\<open>encodedQuery\<close> is the input
  itself, whatever the table.
\<close>

theorem C3_encoded_passthrough:
  assumes "CHR ''='' \<in> set s \<or> CHR ''^'' \<in> set s"
    and "list_all (\<lambda>p. str_match s (regex p) = None) PATTERNS"
  shows "parseNaturalLanguage (JString s) table =
           Inr \<lparr>encodedQuery = s, matchedPatterns = [], unmatchedText = JString [],
                suggestions = [''Using query as-is (appears to be encoded query format)'']\<rparr>"
proof -
  from assms(1) have ne: "s \<noteq> []" by auto
  from assms(2) have "list_all (\<lambda>p. str_match s (regex p) = None) sortedPatterns"
    by (simp add: list_all_iff set_sortedPatterns)
  then have "match_loop s (default_table table)
      = Inr \<lparr>st_remainingQuery = s, st_conditions = [], st_matchedPatterns = []\<rparr>"
    unfolding match_loop_def by (intro run_patterns_no_match) simp
  with assms(1) ne show ?thesis
    by (simp add: parse_string translate_def assemble_def Let_def
        regex_test_encoded passthrough_result_def)
qed

theorem C3_encoded_passthrough_witness:
  "(CHR ''='' \<in> set ''priority=1^state=2'' \<or> CHR ''^'' \<in> set ''priority=1^state=2'')
   \<and> list_all (\<lambda>p. str_match ''priority=1^state=2'' (regex p) = None) PATTERNS
   \<and> parseNaturalLanguage (JString ''priority=1^state=2'') (JString ''problem'') =
        Inr \<lparr>encodedQuery = ''priority=1^state=2'', matchedPatterns = [],
             unmatchedText = JString [],
             suggestions = [''Using query as-is (appears to be encoded query format)'']\<rparr>"
proof -
  have 1: "CHR ''='' \<in> set ''priority=1^state=2'' \<or> CHR ''^'' \<in> set ''priority=1^state=2''"
    by simp
  have 2: "list_all (\<lambda>p. str_match ''priority=1^state=2'' (regex p) = None) PATTERNS"
    by code_simp
  from C3_encoded_passthrough[OF 1 2, of "JString ''problem''"] 1 2 show ?thesis by blast
qed

section \<open>State terms\<close>

lemma pat_state_builder:
  "parser pat_state (m0, [(1, g)]) (JString key) =
     Inr (case get_property STATE_MAPPINGS key of
            Own mp \<Rightarrow> (case map_of mp (trim (toLowerCase g)) of
                         Some fragment \<Rightarrow> fragment
                       | None \<Rightarrow> ''state='' @ trim (toLowerCase g))
          | Inherited \<Rightarrow> ''state='' @ trim (toLowerCase g)
          | Absent \<Rightarrow> (case map_of STATE_MAPPINGS_incident (trim (toLowerCase g)) of
                         Some fragment \<Rightarrow> fragment
                       | None \<Rightarrow> ''state='' @ trim (toLowerCase g)))"
  by (simp add: pat_state_def call_on_def grp_def Let_def split: property.splits)

text \<open>
  Claim C2. The query \<^verbatim>\<open>open\<close> translates to \<^verbatim>\<open>state=1^ORstate=2^ORstate=3\<close> on the table
  \<^verbatim>\<open>incident\<close> and to \<^verbatim>\<open>state<0\<close> on the table \<^verbatim>\<open>change_request\<close>.
\<close>

theorem C2_state_per_collection:
  "parseNaturalLanguage (JString ''open'') (JString ''incident'') =
     Inr \<lparr>encodedQuery = ''state=1^ORstate=2^ORstate=3'',
          matchedPatterns = [\<lparr>pattern = regex pat_state, matched = ''open'',
                              condition = ''state=1^ORstate=2^ORstate=3''\<rparr>],
          unmatchedText = JString [],
          suggestions = [''Query parsed successfully'']\<rparr>
   \<and> parseNaturalLanguage (JString ''open'') (JString ''change_request'') =
     Inr \<lparr>encodedQuery = ''state<0'',
          matchedPatterns = [\<lparr>pattern = regex pat_state, matched = ''open'',
                              condition = ''state<0''\<rparr>],
          unmatchedText = JString [],
          suggestions = [''Query parsed successfully'']\<rparr>"
  by code_simp

text \<open>
  Claim C8. The claim says that a table without a mapping falls back to the incident
  mapping. The table \<^verbatim>\<open>constructor\<close> has no entry in \<^verbatim>\<open>STATE_MAPPINGS\<close>, yet
  \<^verbatim>\<open>STATE_MAPPINGS[table]\<close> finds the member inherited from \<^verbatim>\<open>Object.prototype\<close>, which is
  truthy, so the fallback is not taken and the query \<^verbatim>\<open>open\<close> yields \<^verbatim>\<open>state=open\<close>; a table
  name that is no property at all yields the incident entry.
\<close>

theorem C8_inherited_member_blocks_default:
  "map_of STATE_MAPPINGS ''constructor'' = None
   \<and> get_property STATE_MAPPINGS ''constructor'' = Inherited
   \<and> map_of STATE_MAPPINGS_incident ''open'' = Some ''state=1^ORstate=2^ORstate=3''
   \<and> parseNaturalLanguage (JString ''open'') (JString ''constructor'') =
       Inr \<lparr>encodedQuery = ''state=open'',
            matchedPatterns = [\<lparr>pattern = regex pat_state, matched = ''open'',
                                condition = ''state=open''\<rparr>],
            unmatchedText = JString [],
            suggestions = [''Query parsed successfully'']\<rparr>
   \<and> parseNaturalLanguage (JString ''open'') (JString ''no_such_table'') =
       Inr \<lparr>encodedQuery = ''state=1^ORstate=2^ORstate=3'',
            matchedPatterns = [\<lparr>pattern = regex pat_state, matched = ''open'',
                                condition = ''state=1^ORstate=2^ORstate=3''\<rparr>],
            unmatchedText = JString [],
            suggestions = [''Query parsed successfully'']\<rparr>"
  by code_simp

section \<open>Order of the fragments\<close>

lemma apply_pattern_records:
  assumes "apply_pattern table pat st = Inr st'"
  shows "map pattern (st_matchedPatterns st') = map pattern (st_matchedPatterns st)
   \<or> map pattern (st_matchedPatterns st') = map pattern (st_matchedPatterns st) @ [regex pat]"
  using apply_pattern_cases[OF assms] by auto

lemma run_patterns_fired:
  "run_patterns table pats st = Inr st'
   \<Longrightarrow> \<exists>rs. subseq rs pats
      \<and> map pattern (st_matchedPatterns st') = map pattern (st_matchedPatterns st) @ map regex rs"
proof (induction pats arbitrary: st)
  case Nil
  then show ?case by simp
next
  case (Cons pat pats)
  from Cons.prems obtain st1 where
    a: "apply_pattern table pat st = Inr st1" and r: "run_patterns table pats st1 = Inr st'"
    by (auto split: sum.splits)
  from Cons.IH[OF r] obtain rs where
    sub: "subseq rs pats" and
    eq: "map pattern (st_matchedPatterns st') = map pattern (st_matchedPatterns st1) @ map regex rs"
    by blast
  from apply_pattern_records[OF a] show ?case
  proof
    assume "map pattern (st_matchedPatterns st1) = map pattern (st_matchedPatterns st)"
    with sub eq have "subseq rs (pat # pats)
      \<and> map pattern (st_matchedPatterns st') = map pattern (st_matchedPatterns st) @ map regex rs"
      by (simp add: list_emb_Cons)
    then show ?thesis by blast
  next
    assume "map pattern (st_matchedPatterns st1) = map pattern (st_matchedPatterns st) @ [regex pat]"
    with sub eq have "subseq (pat # rs) (pat # pats)
      \<and> map pattern (st_matchedPatterns st')
          = map pattern (st_matchedPatterns st) @ map regex (pat # rs)"
      by simp
    then show ?thesis by blast
  qed
qed

lemma apply_pattern_conditions:
  "st_conditions st = map condition (st_matchedPatterns st) \<Longrightarrow> apply_pattern table pat st = Inr st'
   \<Longrightarrow> st_conditions st' = map condition (st_matchedPatterns st')"
  by (auto dest!: apply_pattern_cases)

lemma run_patterns_conditions:
  "st_conditions st = map condition (st_matchedPatterns st) \<Longrightarrow> run_patterns table pats st = Inr st'
   \<Longrightarrow> st_conditions st' = map condition (st_matchedPatterns st')"
proof (induction pats arbitrary: st)
  case Nil
  then show ?case by simp
next
  case (Cons pat pats)
  from Cons.prems(2) obtain st1 where
    a: "apply_pattern table pat st = Inr st1" and r: "run_patterns table pats st1 = Inr st'"
    by (auto split: sum.splits)
  from apply_pattern_conditions[OF Cons.prems(1) a] Cons.IH[OF _ r] show ?case by simp
qed

lemma match_loop_conditions:
  "match_loop q table = Inr st \<Longrightarrow> st_conditions st = map condition (st_matchedPatterns st)"
  using run_patterns_conditions[of "\<lparr>st_remainingQuery = q, st_conditions = [], st_matchedPatterns = []\<rparr>"
      table sortedPatterns st]
  by (simp add: match_loop_def)

lemma match_loop_fired:
  "match_loop q table = Inr st
   \<Longrightarrow> \<exists>rs. subseq rs sortedPatterns \<and> map pattern (st_matchedPatterns st) = map regex rs"
  using run_patterns_fired[of table sortedPatterns
      "\<lparr>st_remainingQuery = q, st_conditions = [], st_matchedPatterns = []\<rparr>" st]
  by (simp add: match_loop_def)

lemma sortedPatterns_descending:
  "sorted_wrt (\<lambda>a b. priority b \<le> priority a) sortedPatterns"
proof -
  have "sorted (map (\<lambda>p. - priority p) sortedPatterns)"
    unfolding sortedPatterns_def by (rule sorted_sort_key)
  then show ?thesis by (simp add: sorted_wrt_map)
qed

lemma sorted_wrt_subseq:
  "subseq ys xs \<Longrightarrow> sorted_wrt P xs \<Longrightarrow> sorted_wrt P ys"
proof (induction ys xs rule: list_emb.induct)
  case (list_emb_Nil ys)
  show ?case by simp
next
  case (list_emb_Cons xs ys y)
  then show ?case by simp
next
  case (list_emb_Cons2 x y xs ys)
  then have "sorted_wrt P xs" and all: "\<forall>z\<in>set ys. P y z" by auto
  moreover from list_emb_Cons2 have "set xs \<subseteq> set ys" by (auto dest: list_emb_set)
  ultimately show ?case using list_emb_Cons2 by auto
qed

lemma distinct_subseq:
  "subseq ys xs \<Longrightarrow> distinct xs \<Longrightarrow> distinct ys"
proof (induction ys xs rule: list_emb.induct)
  case (list_emb_Nil ys)
  show ?case by simp
next
  case (list_emb_Cons xs ys y)
  then show ?case by simp
next
  case (list_emb_Cons2 x y xs ys)
  moreover from list_emb_Cons2 have "set xs \<subseteq> set ys" by (auto dest: list_emb_set)
  ultimately show ?case by auto
qed

lemma distinct_regex_PATTERNS: "distinct (map regex PATTERNS)"
  by (simp add: PATTERNS_def pat_priority_level_def pat_priority_p_def pat_priority_word_def
      pat_impact_def pat_urgency_def pat_assigned_me_def pat_unassigned_def pat_assigned_to_def
      pat_date_relative_def pat_date_last_def pat_recent_def pat_date_before_def
      pat_date_after_def pat_state_def pat_content_def pat_description_def pat_number_def
      pat_caller_def pat_category_def pat_assignment_group_def seqs_def words_def)

lemma distinct_regex_sortedPatterns: "distinct (map regex sortedPatterns)"
  using distinct_regex_PATTERNS by (simp add: distinct_map sortedPatterns_def)

lemma assemble_matched:
  "matchedPatterns (assemble q st) = [] \<or> matchedPatterns (assemble q st) = st_matchedPatterns st"
  by (simp add: assemble_def Let_def passthrough_result_def no_match_result_def)

lemma assemble_joined:
  "st_conditions st = map condition (st_matchedPatterns st)
   \<Longrightarrow> matchedPatterns (assemble q st) = []
     \<or> encodedQuery (assemble q st)
          = join (if regex_test re_or (st_remainingQuery st) then ''^OR'' else ''^'')
              (map condition (matchedPatterns (assemble q st)))"
  by (simp add: assemble_def Let_def passthrough_result_def no_match_result_def)

lemma parse_fired:
  assumes "parseNaturalLanguage query table = Inr r"
  shows "\<exists>rs. subseq rs sortedPatterns \<and> map pattern (matchedPatterns r) = map regex rs"
  using parse_cases[OF assms]
proof
  assume "(query = JString [] \<or> (\<forall>s. query \<noteq> JString s)) \<and> r = invalid_result query"
  then have "subseq [] sortedPatterns \<and> map pattern (matchedPatterns r) = map regex []"
    by (simp add: invalid_result_def)
  then show ?thesis by blast
next
  assume "\<exists>s st. query = JString s \<and> s \<noteq> [] \<and> match_loop s (default_table table) = Inr st
          \<and> r = assemble s st"
  then obtain s st where ml: "match_loop s (default_table table) = Inr st" and r: "r = assemble s st"
    by blast
  from match_loop_fired[OF ml] obtain rs where
    sub: "subseq rs sortedPatterns" and eq: "map pattern (st_matchedPatterns st) = map regex rs"
    by blast
  from assemble_matched[of s st] show ?thesis
  proof
    assume "matchedPatterns (assemble s st) = []"
    with r have "subseq [] sortedPatterns \<and> map pattern (matchedPatterns r) = map regex []"
      by simp
    then show ?thesis by blast
  next
    assume "matchedPatterns (assemble s st) = st_matchedPatterns st"
    with r sub eq show ?thesis by auto
  qed
qed

lemma parse_joined:
  assumes "parseNaturalLanguage query table = Inr r" and "matchedPatterns r \<noteq> []"
  shows "\<exists>s st. query = JString s \<and> match_loop s (default_table table) = Inr st
      \<and> encodedQuery r
          = join (if regex_test re_or (st_remainingQuery st) then ''^OR'' else ''^'')
              (map condition (matchedPatterns r))"
  using parse_cases[OF assms(1)]
proof
  assume "(query = JString [] \<or> (\<forall>s. query \<noteq> JString s)) \<and> r = invalid_result query"
  with assms(2) show ?thesis by (simp add: invalid_result_def)
next
  assume "\<exists>s st. query = JString s \<and> s \<noteq> [] \<and> match_loop s (default_table table) = Inr st
          \<and> r = assemble s st"
  then obtain s st where q: "query = JString s"
    and ml: "match_loop s (default_table table) = Inr st" and r: "r = assemble s st"
    by blast
  from assemble_joined[OF match_loop_conditions[OF ml], of s] assms(2) r
  have "encodedQuery r
          = join (if regex_test re_or (st_remainingQuery st) then ''^OR'' else ''^'')
              (map condition (matchedPatterns r))"
    by simp
  with q ml show ?thesis by blast
qed

text \<open>
  Claim C1. The query \<^verbatim>\<open>high priority and assigned to me\<close> on \<^verbatim>\<open>incident\<close> yields
  \<^verbatim>\<open>assigned_to=javascript:gs.getUserID()^priority=2\<close>. For every query and table, the
  matched records of a returned result stem from a subsequence of the patterns sorted by
  descending priority, so their priorities descend, and the filter expression joins their
  fragments in that order.
\<close>

theorem C1_priority_order:
  "parseNaturalLanguage (JString ''high priority and assigned to me'') (JString ''incident'')
     = Inr \<lparr>encodedQuery = ''assigned_to=javascript:gs.getUserID()^priority=2'',
        matchedPatterns =
          [\<lparr>pattern = regex pat_assigned_me, matched = ''assigned to me'',
            condition = ''assigned_to=javascript:gs.getUserID()''\<rparr>,
           \<lparr>pattern = regex pat_priority_level, matched = ''high priority'',
            condition = ''priority=2''\<rparr>],
        unmatchedText = JString [],
        suggestions = [''Query parsed successfully'']\<rparr>
   \<and> priority pat_assigned_me = 15 \<and> priority pat_priority_level = 10
   \<and> (\<forall>r. parseNaturalLanguage query table = Inr r \<longrightarrow>
        (\<exists>rs sep. subseq rs sortedPatterns
         \<and> (sep = ''^'' \<or> sep = ''^OR'')
         \<and> sorted_wrt (\<lambda>a b. priority b \<le> priority a) rs
         \<and> map pattern (matchedPatterns r) = map regex rs
         \<and> (matchedPatterns r = []
              \<or> encodedQuery r = join sep (map condition (matchedPatterns r)))))"
proof -
  have e: "parseNaturalLanguage (JString ''high priority and assigned to me'') (JString ''incident'')
     = Inr \<lparr>encodedQuery = ''assigned_to=javascript:gs.getUserID()^priority=2'',
        matchedPatterns =
          [\<lparr>pattern = regex pat_assigned_me, matched = ''assigned to me'',
            condition = ''assigned_to=javascript:gs.getUserID()''\<rparr>,
           \<lparr>pattern = regex pat_priority_level, matched = ''high priority'',
            condition = ''priority=2''\<rparr>],
        unmatchedText = JString [],
        suggestions = [''Query parsed successfully'']\<rparr>"
    by code_simp
  have pr: "priority pat_assigned_me = 15 \<and> priority pat_priority_level = 10"
    by (simp add: pat_assigned_me_def pat_priority_level_def)
  have g: "\<exists>rs sep. subseq rs sortedPatterns
         \<and> (sep = ''^'' \<or> sep = ''^OR'')
         \<and> sorted_wrt (\<lambda>a b. priority b \<le> priority a) rs
         \<and> map pattern (matchedPatterns r) = map regex rs
         \<and> (matchedPatterns r = []
              \<or> encodedQuery r = join sep (map condition (matchedPatterns r)))"
    if ret: "parseNaturalLanguage query table = Inr r" for r
  proof -
    from parse_fired[OF ret] obtain rs where
      sub: "subseq rs sortedPatterns" and
      eq: "map pattern (matchedPatterns r) = map regex rs"
      by blast
    from sorted_wrt_subseq[OF sub sortedPatterns_descending]
    have srt: "sorted_wrt (\<lambda>a b. priority b \<le> priority a) rs" .
    have "\<exists>sep. (sep = ''^'' \<or> sep = ''^OR'')
          \<and> (matchedPatterns r = []
              \<or> encodedQuery r = join sep (map condition (matchedPatterns r)))"
    proof (cases "matchedPatterns r = []")
      case True
      then show ?thesis by blast
    next
      case False
      from parse_joined[OF ret False] obtain s and st :: LoopState where
        "query = JString s" and
        j: "encodedQuery r
          = join (if regex_test re_or (st_remainingQuery st) then ''^OR'' else ''^'')
              (map condition (matchedPatterns r))"
        by blast
      show ?thesis
      proof (cases "regex_test re_or (st_remainingQuery st)")
        case True
        with j have "encodedQuery r = join ''^OR'' (map condition (matchedPatterns r))" by simp
        then show ?thesis by blast
      next
        case False
        with j have "encodedQuery r = join ''^'' (map condition (matchedPatterns r))" by simp
        then show ?thesis by blast
      qed
    qed
    with sub srt eq show ?thesis by blast
  qed
  from g have "\<forall>r. parseNaturalLanguage query table = Inr r \<longrightarrow>
        (\<exists>rs sep. subseq rs sortedPatterns
         \<and> (sep = ''^'' \<or> sep = ''^OR'')
         \<and> sorted_wrt (\<lambda>a b. priority b \<le> priority a) rs
         \<and> map pattern (matchedPatterns r) = map regex rs
         \<and> (matchedPatterns r = []
              \<or> encodedQuery r = join sep (map condition (matchedPatterns r))))"
    by (intro allI impI)
  with pr have "priority pat_assigned_me = 15 \<and> priority pat_priority_level = 10
   \<and> (\<forall>r. parseNaturalLanguage query table = Inr r \<longrightarrow>
        (\<exists>rs sep. subseq rs sortedPatterns
         \<and> (sep = ''^'' \<or> sep = ''^OR'')
         \<and> sorted_wrt (\<lambda>a b. priority b \<le> priority a) rs
         \<and> map pattern (matchedPatterns r) = map regex rs
         \<and> (matchedPatterns r = []
              \<or> encodedQuery r = join sep (map condition (matchedPatterns r)))))"
    by (simp only: simp_thms)
  with e show ?thesis by (rule conjI)
qed

theorem C1_priority_order_witness:
  "\<exists>rs sep. subseq rs sortedPatterns
     \<and> (sep = ''^'' \<or> sep = ''^OR'')
     \<and> sorted_wrt (\<lambda>a b. priority b \<le> priority a) rs
     \<and> [regex pat_assigned_me, regex pat_priority_level] = map regex rs
     \<and> ''assigned_to=javascript:gs.getUserID()^priority=2''
         = join sep [''assigned_to=javascript:gs.getUserID()'', ''priority=2'']"
proof -
  note t = C1_priority_order[of "JString ''high priority and assigned to me''" "JString ''incident''"]
  note e = t[THEN conjunct1]
  note g = t[THEN conjunct2, THEN conjunct2, THEN conjunct2, rule_format, OF e]
  from g show ?thesis by simp
qed

section \<open>One application per pattern\<close>

text \<open>
  Claim C4, as amended. Every pattern is applied at most once per call: the patterns of
  the matched records of a returned result are pairwise distinct, and there are at most
  as many records as patterns. A pattern that matches records its leftmost match, the one
  a backtracking engine finds first; if its builder succeeds, exactly one occurrence of
  the matched text, the first one in the residual, is replaced by a single space, the
  result is trimmed, and one record is appended. A pattern that does not match leaves
  the state as it is. The query \<^verbatim>\<open>P1 or P2 incidents\<close> yields \<^verbatim>\<open>priority=1\<close> from its first
  mention only, and \<^verbatim>\<open>P2\<close> stays in \<^verbatim>\<open>unmatchedText\<close>.
\<close>

theorem C4_single_application:
  "(\<forall>r. parseNaturalLanguage query table = Inr r \<longrightarrow>
       distinct (map pattern (matchedPatterns r))
       \<and> length (matchedPatterns r) \<le> length PATTERNS)
   \<and> (\<forall>m cond. str_match (st_remainingQuery st) (regex pat) = Some m
          \<and> parser pat m table = Inr cond \<longrightarrow>
        (\<exists>k\<le>length (st_remainingQuery st).
            (\<forall>j<k. matches (regex pat)
                      (if j = 0 then None else Some (st_remainingQuery st ! (j - 1)))
                      (drop j (st_remainingQuery st)) [] = [])
            \<and> (\<exists>rest. matches (regex pat)
                      (if k = 0 then None else Some (st_remainingQuery st ! (k - 1)))
                      (drop k (st_remainingQuery st)) [] = m # rest))
        \<and> (\<exists>us vs. st_remainingQuery st = us @ fst m @ vs
              \<and> (\<forall>k<length us. take (length (fst m)) (drop k (st_remainingQuery st)) \<noteq> fst m)
              \<and> apply_pattern table pat st =
                  Inr \<lparr>st_remainingQuery = trim (us @ '' '' @ vs),
                       st_conditions = st_conditions st @ [cond],
                       st_matchedPatterns = st_matchedPatterns st
                         @ [\<lparr>pattern = regex pat, matched = fst m, condition = cond\<rparr>]\<rparr>))
   \<and> (str_match (st_remainingQuery st) (regex pat) = None \<longrightarrow> apply_pattern table pat st = Inr st)
   \<and> parseNaturalLanguage (JString ''P1 or P2 incidents'') (JString ''incident'')
       = Inr \<lparr>encodedQuery = ''priority=1'',
              matchedPatterns = [\<lparr>pattern = regex pat_priority_p, matched = ''P1'',
                                  condition = ''priority=1''\<rparr>],
              unmatchedText = JString ''P2'',
              suggestions = [''Query parsed successfully'']\<rparr>"
proof -
  have a: "\<forall>r. parseNaturalLanguage query table = Inr r \<longrightarrow>
       distinct (map pattern (matchedPatterns r))
       \<and> length (matchedPatterns r) \<le> length PATTERNS"
  proof (intro allI impI)
    fix r assume ret: "parseNaturalLanguage query table = Inr r"
    from parse_fired[OF ret] obtain rs where
      sub: "subseq rs sortedPatterns" and
      eq: "map pattern (matchedPatterns r) = map regex rs"
      by blast
    from sub have "subseq (map regex rs) (map regex sortedPatterns)"
      by (rule subseq_map)
    from distinct_subseq[OF this distinct_regex_sortedPatterns] eq
    have d: "distinct (map pattern (matchedPatterns r))"
      by simp
    from sub have "length rs \<le> length sortedPatterns"
      by (rule list_emb_length)
    moreover have "length (matchedPatterns r) = length rs"
      using eq by (metis length_map)
    ultimately have "length (matchedPatterns r) \<le> length PATTERNS"
      by (simp add: sortedPatterns_def)
    with d show "distinct (map pattern (matchedPatterns r))
       \<and> length (matchedPatterns r) \<le> length PATTERNS"
      by simp
  qed
  have b: "\<forall>m cond. str_match (st_remainingQuery st) (regex pat) = Some m
          \<and> parser pat m table = Inr cond \<longrightarrow>
        (\<exists>k\<le>length (st_remainingQuery st).
            (\<forall>j<k. matches (regex pat)
                      (if j = 0 then None else Some (st_remainingQuery st ! (j - 1)))
                      (drop j (st_remainingQuery st)) [] = [])
            \<and> (\<exists>rest. matches (regex pat)
                      (if k = 0 then None else Some (st_remainingQuery st ! (k - 1)))
                      (drop k (st_remainingQuery st)) [] = m # rest))
        \<and> (\<exists>us vs. st_remainingQuery st = us @ fst m @ vs
              \<and> (\<forall>k<length us. take (length (fst m)) (drop k (st_remainingQuery st)) \<noteq> fst m)
              \<and> apply_pattern table pat st =
                  Inr \<lparr>st_remainingQuery = trim (us @ '' '' @ vs),
                       st_conditions = st_conditions st @ [cond],
                       st_matchedPatterns = st_matchedPatterns st
                         @ [\<lparr>pattern = regex pat, matched = fst m, condition = cond\<rparr>]\<rparr>)"
  proof (intro allI impI, elim conjE)
    fix m cond
    assume sm: "str_match (st_remainingQuery st) (regex pat) = Some m"
      and pb: "parser pat m table = Inr cond"
    note left = str_match_leftmost[OF sm]
    from sm have "search (regex pat) None (st_remainingQuery st) = Some (fst m, snd m)"
      by (simp add: str_match_def)
    from search_occurs[OF this] obtain us' vs' where
      "st_remainingQuery st = us' @ fst m @ vs'"
      by blast
    from replace_first_first_occurrence[OF this, of "'' ''"] obtain us vs where
      split: "st_remainingQuery st = us @ fst m @ vs" and
      first: "\<forall>k<length us. take (length (fst m)) (drop k (st_remainingQuery st)) \<noteq> fst m" and
      res: "replace_first (fst m) '' '' (st_remainingQuery st) = us @ '' '' @ vs"
      by blast
    from apply_pattern_fires[OF sm pb] res
    have "apply_pattern table pat st =
                  Inr \<lparr>st_remainingQuery = trim (us @ '' '' @ vs),
                       st_conditions = st_conditions st @ [cond],
                       st_matchedPatterns = st_matchedPatterns st
                         @ [\<lparr>pattern = regex pat, matched = fst m, condition = cond\<rparr>]\<rparr>"
      by simp
    with split first
    have "\<exists>us vs. st_remainingQuery st = us @ fst m @ vs
              \<and> (\<forall>k<length us. take (length (fst m)) (drop k (st_remainingQuery st)) \<noteq> fst m)
              \<and> apply_pattern table pat st =
                  Inr \<lparr>st_remainingQuery = trim (us @ '' '' @ vs),
                       st_conditions = st_conditions st @ [cond],
                       st_matchedPatterns = st_matchedPatterns st
                         @ [\<lparr>pattern = regex pat, matched = fst m, condition = cond\<rparr>]\<rparr>"
      by blast
    with left show "(\<exists>k\<le>length (st_remainingQuery st).
            (\<forall>j<k. matches (regex pat)
                      (if j = 0 then None else Some (st_remainingQuery st ! (j - 1)))
                      (drop j (st_remainingQuery st)) [] = [])
            \<and> (\<exists>rest. matches (regex pat)
                      (if k = 0 then None else Some (st_remainingQuery st ! (k - 1)))
                      (drop k (st_remainingQuery st)) [] = m # rest))
        \<and> (\<exists>us vs. st_remainingQuery st = us @ fst m @ vs
              \<and> (\<forall>k<length us. take (length (fst m)) (drop k (st_remainingQuery st)) \<noteq> fst m)
              \<and> apply_pattern table pat st =
                  Inr \<lparr>st_remainingQuery = trim (us @ '' '' @ vs),
                       st_conditions = st_conditions st @ [cond],
                       st_matchedPatterns = st_matchedPatterns st
                         @ [\<lparr>pattern = regex pat, matched = fst m, condition = cond\<rparr>]\<rparr>)"
      by (rule conjI)
  qed
  have c: "str_match (st_remainingQuery st) (regex pat) = None \<longrightarrow> apply_pattern table pat st = Inr st"
    by (simp add: apply_pattern_no_match)
  have e: "parseNaturalLanguage (JString ''P1 or P2 incidents'') (JString ''incident'')
       = Inr \<lparr>encodedQuery = ''priority=1'',
              matchedPatterns = [\<lparr>pattern = regex pat_priority_p, matched = ''P1'',
                                  condition = ''priority=1''\<rparr>],
              unmatchedText = JString ''P2'',
              suggestions = [''Query parsed successfully'']\<rparr>"
    by code_simp
  from a b c e show ?thesis
    by (intro conjI)
qed

theorem C4_single_application_witness:
  "str_match ''P1 or P2 incidents'' (regex pat_priority_p) = Some (''P1'', [(1, ''1'')])
   \<and> parser pat_priority_p (''P1'', [(1, ''1'')]) (JString ''incident'') = Inr ''priority=1''
   \<and> (\<exists>us vs. ''P1 or P2 incidents'' = us @ ''P1'' @ vs
         \<and> apply_pattern (JString ''incident'') pat_priority_p
             \<lparr>st_remainingQuery = ''P1 or P2 incidents'', st_conditions = [],
                st_matchedPatterns = []\<rparr> =
             Inr \<lparr>st_remainingQuery = trim (us @ '' '' @ vs),
                  st_conditions = [''priority=1''],
                  st_matchedPatterns = [\<lparr>pattern = regex pat_priority_p, matched = ''P1'',
                                         condition = ''priority=1''\<rparr>]\<rparr>)
   \<and> distinct (map pattern [\<lparr>pattern = regex pat_priority_p, matched = ''P1'',
                                condition = ''priority=1''\<rparr>])"
proof -
  have m: "str_match ''P1 or P2 incidents'' (regex pat_priority_p) = Some (''P1'', [(1, ''1'')])"
    by code_simp
  have b: "parser pat_priority_p (''P1'', [(1, ''1'')]) (JString ''incident'') = Inr ''priority=1''"
    by code_simp
  note t = C4_single_application[where table = "JString ''incident''" and pat = pat_priority_p
      and query = "JString ''P1 or P2 incidents''"
      and st = "\<lparr>st_remainingQuery = ''P1 or P2 incidents'', st_conditions = [],
                 st_matchedPatterns = []\<rparr>"]
  note e = t[THEN conjunct2, THEN conjunct2, THEN conjunct2]
  from t[THEN conjunct1, rule_format, OF e]
  have d: "distinct (map pattern [\<lparr>pattern = regex pat_priority_p, matched = ''P1'',
                                condition = ''priority=1''\<rparr>])"
    by simp
  from t[THEN conjunct2, THEN conjunct1, rule_format, of "(''P1'', [(1, ''1'')])" "''priority=1''"] m b
  have "\<exists>us vs. ''P1 or P2 incidents'' = us @ ''P1'' @ vs
         \<and> apply_pattern (JString ''incident'') pat_priority_p
             \<lparr>st_remainingQuery = ''P1 or P2 incidents'', st_conditions = [],
                st_matchedPatterns = []\<rparr> =
             Inr \<lparr>st_remainingQuery = trim (us @ '' '' @ vs),
                  st_conditions = [''priority=1''],
                  st_matchedPatterns = [\<lparr>pattern = regex pat_priority_p, matched = ''P1'',
                                         condition = ''priority=1''\<rparr>]\<rparr>"
    by simp blast
  with m b d show ?thesis by (intro conjI)
qed

text \<open>
  The claim as stated, that a pattern consumes its match, fails: in \<^verbatim>\<open>xp1 p1\<close> the pattern
  \<^verbatim>\<open>/\bp([1-5])\b/i\<close> does not match at the \<^verbatim>\<open>p1\<close> inside \<^verbatim>\<open>xp1\<close> and matches the second
  \<^verbatim>\<open>p1\<close>, but the replacement removes the first occurrence of the text \<^verbatim>\<open>p1\<close>: the
  residual is \<^verbatim>\<open>x  p1\<close>, where consuming the match would leave \<^verbatim>\<open>xp1\<close>, and the matched
  mention stays in \<^verbatim>\<open>unmatchedText\<close>.
\<close>

theorem C4_consumes_match_counterexample:
  "str_match ''xp1 p1'' (regex pat_priority_p) = Some (''p1'', [(1, ''1'')])
   \<and> matches (regex pat_priority_p) (Some CHR ''x'') ''p1 p1'' [] = []
   \<and> matches (regex pat_priority_p) (Some CHR '' '') ''p1'' [] = [(''p1'', [(1, ''1'')])]
   \<and> apply_pattern (JString ''incident'') pat_priority_p
        \<lparr>st_remainingQuery = ''xp1 p1'', st_conditions = [], st_matchedPatterns = []\<rparr>
       = Inr \<lparr>st_remainingQuery = ''x  p1'', st_conditions = [''priority=1''],
              st_matchedPatterns = [\<lparr>pattern = regex pat_priority_p, matched = ''p1'',
                                     condition = ''priority=1''\<rparr>]\<rparr>
   \<and> trim (''xp1 '' @ '' '' @ []) = ''xp1''
   \<and> ''x  p1'' \<noteq> ''xp1''
   \<and> parseNaturalLanguage (JString ''xp1 p1'') (JString ''incident'')
       = Inr \<lparr>encodedQuery = ''priority=1'',
              matchedPatterns = [\<lparr>pattern = regex pat_priority_p, matched = ''p1'',
                                  condition = ''priority=1''\<rparr>],
              unmatchedText = JString ''x p1'',
              suggestions =
                [''Unrecognized: '' @ [CHR 0x22] @ ''x p1'' @ [CHR 0x22],
                 ''Try using encoded query format: field=value^field2=value2'',
                 ''Supported patterns: priority (P1-P5), state (new/open/closed), assigned to me/unassigned, recent, dates'']\<rparr>"
  by code_simp

section \<open>The connective\<close>

text \<open>
  Claim C5, as amended. Whenever a pattern matched, one connective joins all fragments,
  and it is chosen from the residual text the match loop leaves: \<^verbatim>\<open>^OR\<close> when that
  residual contains the standalone word \<^verbatim>\<open>or\<close> (whether or not \<^verbatim>\<open>and\<close> occurs too),
  \<^verbatim>\<open>^\<close> when it does not.
\<close>

theorem C5_connective_from_residual:
  assumes "parseNaturalLanguage (JString s) table = Inr r" and "matchedPatterns r \<noteq> []"
  shows "\<exists>st. match_loop s (default_table table) = Inr st
     \<and> encodedQuery r
        = join (if regex_test re_or (st_remainingQuery st) then ''^OR'' else ''^'')
            (map condition (matchedPatterns r))"
  using parse_joined[OF assms] by auto

theorem C5_connective_from_residual_witness:
  "regex_test re_and ''unassigned or p1 and''
   \<and> regex_test re_or ''unassigned or p1 and''
   \<and> parseNaturalLanguage (JString ''unassigned or p1 and'') (JString ''incident'')
       = Inr \<lparr>encodedQuery = ''assigned_toISEMPTY^ORpriority=1'',
              matchedPatterns =
                [\<lparr>pattern = regex pat_unassigned, matched = ''unassigned'',
                  condition = ''assigned_toISEMPTY''\<rparr>,
                 \<lparr>pattern = regex pat_priority_p, matched = ''p1'',
                  condition = ''priority=1''\<rparr>],
              unmatchedText = JString [],
              suggestions = [''Query parsed successfully'']\<rparr>
   \<and> (\<exists>st. match_loop ''unassigned or p1 and'' (default_table (JString ''incident'')) = Inr st
         \<and> regex_test re_or (st_remainingQuery st)
         \<and> ''assigned_toISEMPTY^ORpriority=1''
             = join ''^OR'' [''assigned_toISEMPTY'', ''priority=1''])"
proof -
  have a: "regex_test re_and ''unassigned or p1 and'' \<and> regex_test re_or ''unassigned or p1 and''"
    by code_simp
  have e: "parseNaturalLanguage (JString ''unassigned or p1 and'') (JString ''incident'')
       = Inr \<lparr>encodedQuery = ''assigned_toISEMPTY^ORpriority=1'',
              matchedPatterns =
                [\<lparr>pattern = regex pat_unassigned, matched = ''unassigned'',
                  condition = ''assigned_toISEMPTY''\<rparr>,
                 \<lparr>pattern = regex pat_priority_p, matched = ''p1'',
                  condition = ''priority=1''\<rparr>],
              unmatchedText = JString [],
              suggestions = [''Query parsed successfully'']\<rparr>"
    by code_simp
  from C5_connective_from_residual[OF e] obtain st :: LoopState where
    ml: "match_loop ''unassigned or p1 and'' (default_table (JString ''incident'')) = Inr st" and
    j: "''assigned_toISEMPTY^ORpriority=1''
        = join (if regex_test re_or (st_remainingQuery st) then ''^OR'' else ''^'')
            [''assigned_toISEMPTY'', ''priority=1'']"
    by auto
  have o: "regex_test re_or (st_remainingQuery st)"
  proof (rule ccontr)
    assume "\<not> regex_test re_or (st_remainingQuery st)"
    with j show False by simp
  qed
  with ml have "\<exists>st. match_loop ''unassigned or p1 and'' (default_table (JString ''incident'')) = Inr st
         \<and> regex_test re_or (st_remainingQuery st)
         \<and> ''assigned_toISEMPTY^ORpriority=1''
             = join ''^OR'' [''assigned_toISEMPTY'', ''priority=1'']"
    by auto
  with a e show ?thesis by (intro conjI) simp_all
qed

text \<open>
  The claim as stated, with the connective read off the input, fails: the query below
  contains both \<^verbatim>\<open>and\<close> and \<^verbatim>\<open>or\<close> as standalone words and yields two fragments, but the
  assignment pattern consumes the trailing \<^verbatim>\<open>or\<close>, and the fragments are joined by
  \<^verbatim>\<open>^\<close>.
\<close>

theorem C5_connective_counterexample:
  "regex_test re_and ''p1 and assigned to bob or''
   \<and> regex_test re_or ''p1 and assigned to bob or''
   \<and> parseNaturalLanguage (JString ''p1 and assigned to bob or'') (JString ''incident'')
       = Inr \<lparr>encodedQuery = ''assigned_to.nameLIKEbob^priority=1'',
              matchedPatterns =
                [\<lparr>pattern = regex pat_assigned_to, matched = ''assigned to bob or'',
                  condition = ''assigned_to.nameLIKEbob''\<rparr>,
                 \<lparr>pattern = regex pat_priority_p, matched = ''p1'',
                  condition = ''priority=1''\<rparr>],
              unmatchedText = JString [],
              suggestions = [''Query parsed successfully'']\<rparr>
   \<and> ''assigned_to.nameLIKEbob^priority=1''
       \<noteq> join ''^OR'' [''assigned_to.nameLIKEbob'', ''priority=1'']"
  by code_simp

section \<open>Errors\<close>

lemma builder_errors:
  "pat \<in> set PATTERNS \<Longrightarrow> parser pat m table = Inl e
   \<Longrightarrow> e = TypeError \<or> to_property_key table = Inl e"
  by (auto simp: PATTERNS_def pat_priority_level_def pat_priority_p_def pat_priority_word_def
      pat_impact_def pat_urgency_def pat_assigned_me_def pat_unassigned_def pat_assigned_to_def
      pat_date_relative_def pat_date_last_def pat_recent_def pat_date_before_def
      pat_date_after_def pat_state_def pat_content_def pat_description_def pat_number_def
      pat_caller_def pat_category_def pat_assignment_group_def call_on_def Let_def
      split: option.splits sum.splits)

lemma apply_pattern_returns:
  assumes "pat \<in> set PATTERNS"
    and "\<forall>e. to_property_key table = Inl e \<longrightarrow> console_error e = Inr ()"
  shows "\<exists>st'. apply_pattern table pat st = Inr st'"
proof (cases "str_match (st_remainingQuery st) (regex pat)")
  case None
  then show ?thesis by (simp add: apply_pattern_def)
next
  case (Some m)
  show ?thesis
  proof (cases "parser pat m table")
    case (Inl e)
    from builder_errors[OF assms(1) Inl] assms(2) have "console_error e = Inr ()"
      by auto
    with Some Inl show ?thesis by (simp add: apply_pattern_def)
  next
    case (Inr cond)
    with Some show ?thesis by (simp add: apply_pattern_def)
  qed
qed

lemma run_patterns_returns:
  assumes "\<forall>e. to_property_key table = Inl e \<longrightarrow> console_error e = Inr ()"
  shows "set pats \<subseteq> set PATTERNS \<Longrightarrow> \<exists>st'. run_patterns table pats st = Inr st'"
proof (induction pats arbitrary: st)
  case Nil
  show ?case by simp
next
  case (Cons pat pats)
  then have "pat \<in> set PATTERNS" and sub: "set pats \<subseteq> set PATTERNS" by auto
  from apply_pattern_returns[OF this(1) assms, of st] obtain st1 where
    "apply_pattern table pat st = Inr st1"
    by blast
  with Cons.IH[OF sub, of st1] show ?case by simp
qed

lemma default_table_key:
  "to_property_key (default_table table) = Inl e \<Longrightarrow> to_property_key table = Inl e"
  by (cases table) (simp_all add: default_table_def)

text \<open>
  Claim C6, as amended. For every query value, and for every table whose conversion to a
  property key returns or throws a value that the console can print (every string, number,
  boolean, null and undefined table is of this kind), \<^verbatim>\<open>parseNaturalLanguage\<close> returns a
  result and no exception leaves it. A builder that throws a value the console can print
  is caught and logged, the pattern is skipped, and the loop goes on with the next
  pattern. The empty query on \<^verbatim>\<open>incident\<close> yields an empty \<^verbatim>\<open>encodedQuery\<close> and one
  suggestion.
\<close>

theorem C6_returns_when_logging_succeeds:
  assumes "\<forall>e. to_property_key table = Inl e \<longrightarrow> console_error e = Inr ()"
  shows "(\<exists>r. parseNaturalLanguage query table = Inr r)
    \<and> (\<forall>m e. str_match (st_remainingQuery st) (regex pat) = Some m \<and> parser pat m table = Inl e
           \<and> console_error e = Inr ()
         \<longrightarrow> apply_pattern table pat st = Inr st
             \<and> run_patterns table (pat # pats) st = run_patterns table pats st)
    \<and> parseNaturalLanguage (JString []) (JString ''incident'') =
        Inr \<lparr>encodedQuery = [], matchedPatterns = [], unmatchedText = JString [],
             suggestions = [''Please provide a valid query string'']\<rparr>"
proof -
  from assms have d: "\<forall>e. to_property_key (default_table table) = Inl e \<longrightarrow> console_error e = Inr ()"
    by (auto dest: default_table_key)
  have a: "\<exists>r. parseNaturalLanguage query table = Inr r"
  proof (cases "js_not query \<or> typeof query \<noteq> ''string''")
    case True
    then show ?thesis by (simp add: parseNaturalLanguage_def)
  next
    case False
    have "set sortedPatterns \<subseteq> set PATTERNS"
      by (simp add: set_sortedPatterns)
    from run_patterns_returns[OF d this] obtain st' where
      "match_loop (string_of query) (default_table table) = Inr st'"
      unfolding match_loop_def by blast
    with False show ?thesis
      by (simp add: parseNaturalLanguage_def translate_def)
  qed
  have b: "\<forall>m e. str_match (st_remainingQuery st) (regex pat) = Some m \<and> parser pat m table = Inl e
           \<and> console_error e = Inr ()
         \<longrightarrow> apply_pattern table pat st = Inr st
             \<and> run_patterns table (pat # pats) st = run_patterns table pats st"
    by (simp add: apply_pattern_skips)
  have c: "parseNaturalLanguage (JString []) (JString ''incident'') =
        Inr \<lparr>encodedQuery = [], matchedPatterns = [], unmatchedText = JString [],
             suggestions = [''Please provide a valid query string'']\<rparr>"
    by (simp add: parseNaturalLanguage_def js_not_def invalid_result_def)
  from a b c show ?thesis by (intro conjI)
qed

theorem C6_returns_when_logging_succeeds_witness:
  "to_property_key (JObject (Inl UserError)) = Inl UserError
   \<and> console_error UserError = Inr ()
   \<and> str_match ''open'' (regex pat_state) = Some (''open'', [(1, ''open'')])
   \<and> parser pat_state (''open'', [(1, ''open'')]) (JObject (Inl UserError)) = Inl UserError
   \<and> apply_pattern (JObject (Inl UserError)) pat_state
        \<lparr>st_remainingQuery = ''open'', st_conditions = [], st_matchedPatterns = []\<rparr>
      = Inr \<lparr>st_remainingQuery = ''open'', st_conditions = [], st_matchedPatterns = []\<rparr>
   \<and> (\<exists>r. parseNaturalLanguage (JString ''p1 open'') (JObject (Inl UserError)) = Inr r)
   \<and> parseNaturalLanguage (JString ''p1 open'') (JObject (Inl UserError))
       = Inr \<lparr>encodedQuery = ''priority=1'',
              matchedPatterns = [\<lparr>pattern = regex pat_priority_p, matched = ''p1'',
                                  condition = ''priority=1''\<rparr>],
              unmatchedText = JString ''open'',
              suggestions =
                [''Unrecognized: '' @ [CHR 0x22] @ ''open'' @ [CHR 0x22],
                 ''Try using encoded query format: field=value^field2=value2'',
                 ''Supported patterns: priority (P1-P5), state (new/open/closed), assigned to me/unassigned, recent, dates'']\<rparr>
   \<and> (\<exists>r. parseNaturalLanguage (JString ''p1 open'') (JString ''incident'') = Inr r)"
proof -
  have h: "\<forall>e. to_property_key (JObject (Inl UserError)) = Inl e \<longrightarrow> console_error e = Inr ()"
    by simp
  have hs: "\<forall>e. to_property_key (JString ''incident'') = Inl e \<longrightarrow> console_error e = Inr ()"
    by simp
  have m: "str_match ''open'' (regex pat_state) = Some (''open'', [(1, ''open'')])"
    by code_simp
  have b: "parser pat_state (''open'', [(1, ''open'')]) (JObject (Inl UserError)) = Inl UserError"
    by code_simp
  have e: "parseNaturalLanguage (JString ''p1 open'') (JObject (Inl UserError))
       = Inr \<lparr>encodedQuery = ''priority=1'',
              matchedPatterns = [\<lparr>pattern = regex pat_priority_p, matched = ''p1'',
                                  condition = ''priority=1''\<rparr>],
              unmatchedText = JString ''open'',
              suggestions =
                [''Unrecognized: '' @ [CHR 0x22] @ ''open'' @ [CHR 0x22],
                 ''Try using encoded query format: field=value^field2=value2'',
                 ''Supported patterns: priority (P1-P5), state (new/open/closed), assigned to me/unassigned, recent, dates'']\<rparr>"
    by code_simp
  note t = C6_returns_when_logging_succeeds[OF h, where query = "JString ''p1 open''"
      and pat = pat_state and pats = "[]"
      and st = "\<lparr>st_remainingQuery = ''open'', st_conditions = [], st_matchedPatterns = []\<rparr>"]
  note r1 = t[THEN conjunct1]
  from t[THEN conjunct2, THEN conjunct1, rule_format, of "(''open'', [(1, ''open'')])" UserError] m b
  have s: "apply_pattern (JObject (Inl UserError)) pat_state
        \<lparr>st_remainingQuery = ''open'', st_conditions = [], st_matchedPatterns = []\<rparr>
      = Inr \<lparr>st_remainingQuery = ''open'', st_conditions = [], st_matchedPatterns = []\<rparr>"
    by simp
  note r2 = C6_returns_when_logging_succeeds[OF hs, where query = "JString ''p1 open''",
      THEN conjunct1]
  have k: "to_property_key (JObject (Inl UserError)) = Inl UserError"
    and l: "console_error UserError = Inr ()"
    by simp_all
  from k l m b s r1 e r2 show ?thesis by (intro conjI)
qed

text \<open>
  The claim as stated, for every table, fails: when the table is an object whose
  conversion to a property key throws a value whose inspection throws, the state builder
  throws that value, \<^verbatim>\<open>console.error\<close> in the \<^verbatim>\<open>catch\<close> block throws while formatting it,
  and that exception leaves \<^verbatim>\<open>parseNaturalLanguage\<close>.
\<close>

theorem C6_never_throws_counterexample:
  "to_property_key (JObject (Inl (Uninspectable UserError))) = Inl (Uninspectable UserError)
   \<and> console_error (Uninspectable UserError) = Inl UserError
   \<and> parseNaturalLanguage (JString ''open'') (JObject (Inl (Uninspectable UserError)))
       = Inl UserError"
  by code_simp

section \<open>Suggestions\<close>



end
